theory Spec2Isabelle
  imports Main
begin

section \<open>Interview scheduler: data model\<close>

text \<open>
  The scheduler of \<^verbatim>\<open>src/scheduler/schedule.py\<close> and the configuration adapter of
  \<^verbatim>\<open>src/scheduler/cli.py\<close>. Python integers are unbounded, so every number is an
  \<^typ>\<open>int\<close>; Python's \<^verbatim>\<open>//\<close> and \<^verbatim>\<open>%\<close> round towards minus infinity, as \<open>div\<close>
  and \<open>mod\<close> on \<^typ>\<open>int\<close> do. A Python \<^verbatim>\<open>dict\<close> keeps its keys in insertion order
  and the code iterates over it, so a dict is an association list; Python guarantees
  that its keys are distinct, which the theorems that count over the keys assume.
\<close>

subsection \<open>Exceptions\<close>

text \<open>
  Every \<^verbatim>\<open>raise ValueError(...)\<close> of the source is one constructor of \<open>value_error\<close>,
  carrying the values its message is formatted from. \<open>InvalidLiteral\<close> is the
  \<^verbatim>\<open>ValueError\<close> of the builtin \<^verbatim>\<open>int(text)\<close> and \<open>MaxOfEmptySequence\<close> that of
  \<^verbatim>\<open>max\<close> on an empty sequence. \<open>KeyError\<close> is a dict lookup of an absent key and
  \<open>AttributeError\<close> a method call on \<^verbatim>\<open>None\<close>.
\<close>

datatype value_error =
    OrderPanelNotFound string
  | MissingAvailability string
  | InvalidWindow int int string
  | PositionPanelNotFound string
  | InvalidStringPosition string string
  | InvalidIntPosition int string
  | InvalidPositionType string
  | ConflictGroupTooSmall nat
  | ConflictPanelNotFound string nat
  | ConflictGroupDuplicates nat
  | NoSolutionFound
  | InvalidDurationFormat string
  | DurationNotDivisible string int int
  | InvalidLiteral string
  | MaxOfEmptySequence
  | TimeParseError string
  | WindowFormat string
  | WindowOrder string

datatype error = ValueError value_error | ZeroDivisionError | KeyError | AttributeError

subsection \<open>The constraint model\<close>

text \<open>
  \<^verbatim>\<open>solve\<close> builds a CP-SAT model: integer and Boolean variables, and constraints
  over them. A variable of the Python code is an object; here it is named by the
  indices it is created for. \<open>StartVar c p\<close> is \<^verbatim>\<open>start_vars[(c, p)]\<close>; \<open>Avail c p i\<close> is
  \<^verbatim>\<open>avail_{c}_{p}_{i}\<close>; \<open>Follows c p1 p2\<close> is \<^verbatim>\<open>follows_{c}_{p1}_{p2}\<close>; \<open>GapBefore\<close> and
  \<open>GapAfter c p1 p2 p3\<close> are the \<^verbatim>\<open>before\<close> and \<^verbatim>\<open>after\<close> variables of the gap
  constraints; \<open>PosBefore c other panel\<close> is the \<^verbatim>\<open>before_var\<close> of an integer position;
  \<open>Break c i\<close> is the break variable of candidate \<open>c\<close> for the \<open>i\<close>-th pair of the
  preferred order.
\<close>

datatype int_var = StartVar nat string | NumBreaks | Makespan

datatype bool_var =
    Avail nat string nat
  | Follows nat string string
  | GapBefore nat string string string
  | GapAfter nat string string string
  | PosBefore nat string string
  | Break nat nat

datatype expr =
    IVar int_var
  | Const int
  | Plus expr expr
  | Times expr int
  | BoolSum "bool_var list"

text \<open>A literal is a Boolean variable or its negation (\<^verbatim>\<open>var.Not()\<close>).\<close>

datatype literal = Is bool_var | IsNot bool_var

datatype linear = LE expr expr | LT expr expr | GE expr expr | EQ expr expr

datatype interval = IntervalVar expr int expr

text \<open>
  \<open>Domain v lb ub\<close> is \<^verbatim>\<open>NewIntVar(lb, ub)\<close>; \<open>NewInterval\<close> is \<^verbatim>\<open>NewIntervalVar\<close>;
  \<open>Linear l lits\<close> is \<^verbatim>\<open>Add(l).OnlyEnforceIf(lits)\<close> (\<^verbatim>\<open>Add(l)\<close> when \<open>lits\<close> is empty);
  \<open>NoOverlap\<close> is \<^verbatim>\<open>AddNoOverlap\<close>; \<open>BoolOr ls lits\<close> is \<^verbatim>\<open>AddBoolOr(ls).OnlyEnforceIf(lits)\<close>.
\<close>

datatype constr =
    Domain int_var int int
  | NewInterval interval
  | Linear linear "literal list"
  | NoOverlap "interval list"
  | BoolOr "literal list" "literal list"

text \<open>What the solver returns: a value for every variable.\<close>

record assignment =
  ival :: "int_var \<Rightarrow> int"
  bval :: "bool_var \<Rightarrow> bool"

subsection \<open>The scheduler object\<close>

text \<open>
  A position is \<^verbatim>\<open>"first"\<close>, \<^verbatim>\<open>"last"\<close> (any string, until validated), an integer, or
  a value of another type. A conflict group should be a list of panel names;
  \<open>NotAList\<close> stands for any other value.
\<close>

datatype position = PosStr string | PosInt int | PosOther

datatype conflict_group = Group "string list" | NotAList

datatype cp_status = UNKNOWN | MODEL_INVALID | FEASIBLE | INFEASIBLE | OPTIMAL

record scheduler =
  num_candidates :: int
  panels :: "(string \<times> int) list"
  order :: "string list"
  availabilities :: "(string \<times> (int \<times> int) list) list"
  slots_per_day :: int
  max_gap_minutes :: int
  start_time_hour :: int
  start_time_minute :: int
  slot_duration_minutes :: int
  position_constraints :: "(string \<times> position) list"
  panel_conflicts :: "conflict_group list"
  max_gap_slots :: int
  model :: "(constr list \<times> expr) option"
  solver :: "assignment option"
  status :: "cp_status option"
  solution_found :: bool

subsection \<open>Validation\<close>

text \<open>A \<^verbatim>\<open>for\<close> loop whose body may raise: the first error ends the loop.\<close>

fun for_each :: "('a \<Rightarrow> error + unit) \<Rightarrow> 'a list \<Rightarrow> error + unit" where
  "for_each f [] = Inr ()"
| "for_each f (x # xs) = (case f x of Inl e \<Rightarrow> Inl e | Inr _ \<Rightarrow> for_each f xs)"

definition and_then :: "error + unit \<Rightarrow> error + unit \<Rightarrow> error + unit" where
  "and_then a b = (case a of Inl e \<Rightarrow> Inl e | Inr _ \<Rightarrow> b)"

definition has_key :: "'k \<Rightarrow> ('k \<times> 'v) list \<Rightarrow> bool" where
  "has_key k d = (k \<in> fst ` set d)"

definition check_order :: "scheduler \<Rightarrow> string \<Rightarrow> error + unit" where
  "check_order s panel =
     (if \<not> has_key panel (panels s) then Inl (ValueError (OrderPanelNotFound panel))
      else Inr ())"

definition check_has_availability :: "scheduler \<Rightarrow> string \<times> int \<Rightarrow> error + unit" where
  "check_has_availability s pd =
     (if \<not> has_key (fst pd) (availabilities s)
      then Inl (ValueError (MissingAvailability (fst pd)))
      else Inr ())"

definition check_window :: "scheduler \<Rightarrow> string \<Rightarrow> int \<times> int \<Rightarrow> error + unit" where
  "check_window s panel w =
     (case w of (start, end) \<Rightarrow>
        if start < 0 \<or> end > slots_per_day s \<or> start \<ge> end
        then Inl (ValueError (InvalidWindow start end panel))
        else Inr ())"

definition check_windows :: "scheduler \<Rightarrow> string \<times> (int \<times> int) list \<Rightarrow> error + unit" where
  "check_windows s pw = for_each (check_window s (fst pw)) (snd pw)"

definition check_position :: "scheduler \<Rightarrow> string \<times> position \<Rightarrow> error + unit" where
  "check_position s pp =
     (case pp of (panel, position) \<Rightarrow>
        if \<not> has_key panel (panels s) then Inl (ValueError (PositionPanelNotFound panel))
        else (case position of
                PosStr str \<Rightarrow>
                  if str \<noteq> ''first'' \<and> str \<noteq> ''last''
                  then Inl (ValueError (InvalidStringPosition str panel))
                  else Inr ()
              | PosInt k \<Rightarrow>
                  if \<not> (0 \<le> k \<and> k < int (length (panels s)))
                  then Inl (ValueError (InvalidIntPosition k panel))
                  else Inr ()
              | PosOther \<Rightarrow> Inl (ValueError (InvalidPositionType panel))))"

definition check_conflict_panel :: "scheduler \<Rightarrow> nat \<Rightarrow> string \<Rightarrow> error + unit" where
  "check_conflict_panel s i panel =
     (if \<not> has_key panel (panels s) then Inl (ValueError (ConflictPanelNotFound panel i))
      else Inr ())"

definition check_conflict_group :: "scheduler \<Rightarrow> nat \<times> conflict_group \<Rightarrow> error + unit" where
  "check_conflict_group s ig =
     (case ig of (i, g) \<Rightarrow>
        (case g of
           NotAList \<Rightarrow> Inl (ValueError (ConflictGroupTooSmall i))
         | Group ps \<Rightarrow>
             if length ps < 2 then Inl (ValueError (ConflictGroupTooSmall i))
             else and_then (for_each (check_conflict_panel s i) ps)
                    (if card (set ps) \<noteq> length ps
                     then Inl (ValueError (ConflictGroupDuplicates i))
                     else Inr ())))"

definition validate_parameters :: "scheduler \<Rightarrow> error + unit" where
  "validate_parameters s =
     and_then (for_each (check_order s) (order s))
    (and_then (for_each (check_has_availability s) (panels s))
    (and_then (for_each (check_windows s) (availabilities s))
    (and_then (for_each (check_position s) (position_constraints s))
              (for_each (check_conflict_group s) (enumerate 0 (panel_conflicts s))))))"

text \<open>
  \<^verbatim>\<open>__init__\<close>: the fields are stored, \<^verbatim>\<open>max_gap_slots\<close> is computed (a zero slot
  width raises \<^verbatim>\<open>ZeroDivisionError\<close> here, before validation), the parameters are
  validated, and the result fields are cleared.
\<close>

definition init ::
  "int \<Rightarrow> (string \<times> int) list \<Rightarrow> string list \<Rightarrow> (string \<times> (int \<times> int) list) list \<Rightarrow>
   int \<Rightarrow> int \<Rightarrow> int \<Rightarrow> int \<Rightarrow> int \<Rightarrow> (string \<times> position) list \<Rightarrow> conflict_group list \<Rightarrow>
   error + scheduler" where
  "init n ps ord av spd gap h0 m0 w pos conf =
     (if w = 0 then Inl ZeroDivisionError
      else
        let s = \<lparr> num_candidates = n, panels = ps, order = ord, availabilities = av,
                  slots_per_day = spd, max_gap_minutes = gap, start_time_hour = h0,
                  start_time_minute = m0, slot_duration_minutes = w,
                  position_constraints = pos, panel_conflicts = conf,
                  max_gap_slots = gap div w, model = None, solver = None,
                  status = None, solution_found = False \<rparr>
        in case validate_parameters s of Inl e \<Rightarrow> Inl e | Inr _ \<Rightarrow> Inr s)"

subsection \<open>Timeline\<close>

definition time_to_slot :: "scheduler \<Rightarrow> int \<Rightarrow> int \<Rightarrow> error + int" where
  "time_to_slot s hour minute =
     (if slot_duration_minutes s = 0 then Inl ZeroDivisionError
      else Inr (((hour - start_time_hour s) * 60 + (minute - start_time_minute s))
                div slot_duration_minutes s))"

text \<open>
  \<^verbatim>\<open>slot_to_time\<close> computes an hour and a minute and formats them as \<^verbatim>\<open>HH:MM\<close>;
  \<open>slot_to_hm\<close> is the pair before formatting.
\<close>

definition slot_to_hm :: "scheduler \<Rightarrow> int \<Rightarrow> int \<times> int" where
  "slot_to_hm s slot =
     (let total_minutes = slot * slot_duration_minutes s + start_time_minute s;
          hour = start_time_hour s + total_minutes div 60;
          minute = total_minutes mod 60
      in (hour, minute))"

subsection \<open>Semantics of the constraint model\<close>

fun eval :: "assignment \<Rightarrow> expr \<Rightarrow> int" where
  "eval a (IVar v) = ival a v"
| "eval a (Const k) = k"
| "eval a (Plus x y) = eval a x + eval a y"
| "eval a (Times x k) = eval a x * k"
| "eval a (BoolSum bs) = (\<Sum>b\<leftarrow>bs. if bval a b then 1 else 0)"

fun lit_true :: "assignment \<Rightarrow> literal \<Rightarrow> bool" where
  "lit_true a (Is b) = bval a b"
| "lit_true a (IsNot b) = (\<not> bval a b)"

fun linear_holds :: "assignment \<Rightarrow> linear \<Rightarrow> bool" where
  "linear_holds a (LE x y) = (eval a x \<le> eval a y)"
| "linear_holds a (LT x y) = (eval a x < eval a y)"
| "linear_holds a (GE x y) = (eval a x \<ge> eval a y)"
| "linear_holds a (EQ x y) = (eval a x = eval a y)"

fun interval_start :: "interval \<Rightarrow> expr" where
  "interval_start (IntervalVar st sz en) = st"

fun interval_end :: "interval \<Rightarrow> expr" where
  "interval_end (IntervalVar st sz en) = en"

definition intervals_disjoint :: "assignment \<Rightarrow> interval \<Rightarrow> interval \<Rightarrow> bool" where
  "intervals_disjoint a i j =
     (eval a (interval_end i) \<le> eval a (interval_start j) \<or>
      eval a (interval_end j) \<le> eval a (interval_start i))"

fun no_overlap :: "assignment \<Rightarrow> interval list \<Rightarrow> bool" where
  "no_overlap a [] = True"
| "no_overlap a (i # is) = (list_all (intervals_disjoint a i) is \<and> no_overlap a is)"

fun holds :: "assignment \<Rightarrow> constr \<Rightarrow> bool" where
  "holds a (Domain v lb ub) = (lb \<le> ival a v \<and> ival a v \<le> ub)"
| "holds a (NewInterval (IntervalVar st sz en)) = (eval a st + sz = eval a en \<and> 0 \<le> sz)"
| "holds a (Linear l lits) = (list_all (lit_true a) lits \<longrightarrow> linear_holds a l)"
| "holds a (NoOverlap is) = no_overlap a is"
| "holds a (BoolOr ls lits) = (list_all (lit_true a) lits \<longrightarrow> list_ex (lit_true a) ls)"

subsection \<open>Building the model\<close>

definition candidates :: "scheduler \<Rightarrow> nat list" where
  "candidates s = [0..<nat (num_candidates s)]"

definition panel_names :: "scheduler \<Rightarrow> string list" where
  "panel_names s = map fst (panels s)"

definition duration :: "scheduler \<Rightarrow> string \<Rightarrow> int" where
  "duration s p = the (map_of (panels s) p)"

definition start_var :: "nat \<Rightarrow> string \<Rightarrow> expr" where
  "start_var c p = IVar (StartVar c p)"

definition new_start_vars :: "scheduler \<Rightarrow> constr list" where
  "new_start_vars s =
     [Domain (StartVar c p) 0 (slots_per_day s - d). c \<leftarrow> candidates s, (p, d) \<leftarrow> panels s]"

definition interval_var :: "nat \<Rightarrow> string \<Rightarrow> int \<Rightarrow> interval" where
  "interval_var c p d = IntervalVar (start_var c p) d (Plus (start_var c p) (Const d))"

definition new_interval_vars :: "scheduler \<Rightarrow> constr list" where
  "new_interval_vars s =
     [NewInterval (interval_var c p d). c \<leftarrow> candidates s, (p, d) \<leftarrow> panels s]"

definition interval_vars :: "scheduler \<Rightarrow> nat \<Rightarrow> string \<Rightarrow> interval" where
  "interval_vars s c p = interval_var c p (duration s p)"

definition lunch_like_panels :: "string set" where
  "lunch_like_panels = {''Lunch''}"

definition availability_constraints :: "scheduler \<Rightarrow> nat \<Rightarrow> string \<Rightarrow> constr list" where
  "availability_constraints s c p =
     (let duration = duration s p;
          windows = the (map_of (availabilities s) p)
      in concat [[Linear (GE (start_var c p) (Const start_slot)) [Is (Avail c p i)],
                  Linear (LE (Plus (start_var c p) (Const duration)) (Const end_slot))
                    [Is (Avail c p i)]].
                 (i, (start_slot, end_slot)) \<leftarrow> enumerate 0 windows]
         @ [Linear (EQ (BoolSum [Avail c p i. i \<leftarrow> [0..<length windows]]) (Const 1)) []])"

definition add_basic_constraints :: "scheduler \<Rightarrow> constr list" where
  "add_basic_constraints s =
     [NoOverlap [interval_vars s c p. p \<leftarrow> panel_names s]. c \<leftarrow> candidates s]
     @ [NoOverlap [interval_vars s c p. c \<leftarrow> candidates s].
          p \<leftarrow> panel_names s, p \<notin> lunch_like_panels]
     @ concat [availability_constraints s c p. c \<leftarrow> candidates s, p \<leftarrow> panel_names s]"

definition follows_constraints :: "scheduler \<Rightarrow> nat \<Rightarrow> string \<Rightarrow> string \<Rightarrow> constr list" where
  "follows_constraints s c p1 p2 =
     (let follows_var = Follows c p1 p2;
          d1 = duration s p1
      in [Linear (GE (start_var c p2) (Plus (start_var c p1) (Const d1))) [Is follows_var],
          Linear (LE (start_var c p2)
                     (Plus (Plus (start_var c p1) (Const d1)) (Const (max_gap_slots s))))
            [Is follows_var]]
         @ concat [[Linear (LT (start_var c p3) (Plus (start_var c p1) (Const d1)))
                      [Is follows_var, Is (GapBefore c p1 p2 p3)],
                    Linear (GE (start_var c p3) (start_var c p2))
                      [Is follows_var, Is (GapAfter c p1 p2 p3)],
                    BoolOr [Is (GapBefore c p1 p2 p3), Is (GapAfter c p1 p2 p3)]
                      [Is follows_var]].
                   p3 \<leftarrow> panel_names s, p3 \<noteq> p1 \<and> p3 \<noteq> p2])"

definition gap_constraints :: "scheduler \<Rightarrow> nat \<Rightarrow> constr list" where
  "gap_constraints s c =
     (let panels_list = panel_names s
      in concat [follows_constraints s c p1 p2.
                   p1 \<leftarrow> panels_list, p2 \<leftarrow> panels_list, p1 \<noteq> p2]
         @ concat [[Linear (LE (BoolSum [Follows c p1 p. p1 \<leftarrow> panels_list, p1 \<noteq> p])
                               (Const 1)) [],
                    Linear (LE (BoolSum [Follows c p p2. p2 \<leftarrow> panels_list, p2 \<noteq> p])
                               (Const 1)) []].
                   p \<leftarrow> panels_list]
         @ [Linear (EQ (BoolSum [Follows c p1 p2.
                                   p1 \<leftarrow> panels_list, p2 \<leftarrow> panels_list, p1 \<noteq> p2])
                       (Const (int (length panels_list) - 1))) []])"

definition add_gap_constraints :: "scheduler \<Rightarrow> constr list" where
  "add_gap_constraints s = concat [gap_constraints s c. c \<leftarrow> candidates s]"

definition position_constraint :: "scheduler \<Rightarrow> nat \<Rightarrow> string \<Rightarrow> position \<Rightarrow> constr list" where
  "position_constraint s c panel position =
     (if position = PosStr ''first'' then
        [Linear (LE (start_var c panel) (start_var c other_panel)) [].
           other_panel \<leftarrow> panel_names s, other_panel \<noteq> panel]
      else if position = PosStr ''last'' then
        [Linear (GE (start_var c panel)
                    (Plus (start_var c other_panel) (Const (duration s other_panel)))) [].
           other_panel \<leftarrow> panel_names s, other_panel \<noteq> panel]
      else (case position of
              PosInt k \<Rightarrow>
                concat [[Linear (LE (Plus (start_var c other_panel)
                                          (Const (duration s other_panel)))
                                    (start_var c panel))
                           [Is (PosBefore c other_panel panel)],
                         Linear (LT (start_var c panel)
                                    (Plus (start_var c other_panel)
                                          (Const (duration s other_panel))))
                           [IsNot (PosBefore c other_panel panel)]].
                        other_panel \<leftarrow> panel_names s, other_panel \<noteq> panel]
                @ [Linear (EQ (BoolSum [PosBefore c other_panel panel.
                                          other_panel \<leftarrow> panel_names s, other_panel \<noteq> panel])
                              (Const k)) []]
            | _ \<Rightarrow> []))"

definition add_position_constraints :: "scheduler \<Rightarrow> constr list" where
  "add_position_constraints s =
     (if position_constraints s = [] then []
      else concat [position_constraint s c panel position.
                     c \<leftarrow> candidates s, (panel, position) \<leftarrow> position_constraints s])"

definition add_panel_conflict_constraints :: "scheduler \<Rightarrow> constr list" where
  "add_panel_conflict_constraints s =
     (if panel_conflicts s = [] then []
      else [NoOverlap [interval_vars s c panel. panel \<leftarrow> conflict_group, c \<leftarrow> candidates s].
              Group conflict_group \<leftarrow> panel_conflicts s])"

definition break_vars :: "scheduler \<Rightarrow> bool_var list" where
  "break_vars s = [Break c i. c \<leftarrow> candidates s, i \<leftarrow> [0..<length (order s) - 1]]"

definition add_order_constraints :: "scheduler \<Rightarrow> constr list" where
  "add_order_constraints s =
     concat [(let p1 = order s ! i; p2 = order s ! (i + 1); d1 = duration s p1
              in [Linear (LE (Plus (start_var c p1) (Const d1)) (start_var c p2))
                    [IsNot (Break c i)],
                  Linear (LE (Plus (start_var c p2) (Const (duration s p2))) (start_var c p1))
                    [Is (Break c i)]]).
             c \<leftarrow> candidates s, i \<leftarrow> [0..<length (order s) - 1]]"

definition BIG :: "scheduler \<Rightarrow> int" where
  "BIG s = (slots_per_day s + 1) * 1000"

definition set_objective :: "scheduler \<Rightarrow> bool_var list \<Rightarrow> constr list \<times> expr" where
  "set_objective s bvs =
     ([Domain NumBreaks 0 (int (length bvs)),
       Linear (EQ (IVar NumBreaks) (BoolSum bvs)) [],
       Domain Makespan 0 (slots_per_day s)]
      @ [Linear (GE (IVar Makespan) (Plus (start_var c p) (Const d))) [].
           c \<leftarrow> candidates s, (p, d) \<leftarrow> panels s],
      Plus (Times (IVar NumBreaks) (BIG s)) (IVar Makespan))"

definition build_model :: "scheduler \<Rightarrow> constr list \<times> expr" where
  "build_model s =
     (new_start_vars s @ new_interval_vars s
      @ add_basic_constraints s
      @ add_gap_constraints s
      @ add_position_constraints s
      @ add_panel_conflict_constraints s
      @ add_order_constraints s
      @ fst (set_objective s (break_vars s)),
      snd (set_objective s (break_vars s)))"

definition feasible :: "scheduler \<Rightarrow> assignment \<Rightarrow> bool" where
  "feasible s a = list_all (holds a) (fst (build_model s))"

definition objective_value :: "scheduler \<Rightarrow> assignment \<Rightarrow> int" where
  "objective_value s a = eval a (snd (build_model s))"

subsection \<open>Text: the string methods that the configuration adapter uses\<close>

text \<open>
  A \<^typ>\<open>string\<close> is a list of 8-bit characters; the methods below are Python's on ASCII
  text. \<^verbatim>\<open>str.lower\<close> maps the 26 capital letters, \<^verbatim>\<open>str.strip\<close> removes the ASCII
  whitespace (tab, line feed, vertical tab, form feed, carriage return, the separators
  \<open>0x1C\<close> to \<open>0x1F\<close> and the space) from both ends, \<^verbatim>\<open>str.isdigit\<close> holds for a
  non-empty text of digits.
\<close>

definition lower_char :: "char \<Rightarrow> char" where
  "lower_char c =
     (case map_of (zip ''ABCDEFGHIJKLMNOPQRSTUVWXYZ'' ''abcdefghijklmnopqrstuvwxyz'') c of
        Some l \<Rightarrow> l
      | None \<Rightarrow> c)"

definition lower :: "string \<Rightarrow> string" where
  "lower s = map lower_char s"

definition isspace :: "char \<Rightarrow> bool" where
  "isspace c = (c \<in> {CHR 0x09, CHR 0x0A, CHR 0x0B, CHR 0x0C, CHR 0x0D,
                       CHR 0x1C, CHR 0x1D, CHR 0x1E, CHR 0x1F, CHR '' ''})"

definition strip :: "string \<Rightarrow> string" where
  "strip s = rev (dropWhile isspace (rev (dropWhile isspace s)))"

definition is_digit :: "char \<Rightarrow> bool" where
  "is_digit c = (c \<in> set ''0123456789'')"

definition isdigit :: "string \<Rightarrow> bool" where
  "isdigit s = (s \<noteq> [] \<and> list_all is_digit s)"

text \<open>\<^verbatim>\<open>sub in s\<close> for a text \<open>sub\<close>.\<close>

fun contains :: "string \<Rightarrow> string \<Rightarrow> bool" where
  "contains sub [] = (sub = [])"
| "contains sub (c # cs) = (take (length sub) (c # cs) = sub \<or> contains sub cs)"

text \<open>\<^verbatim>\<open>s.split(sep)\<close> for a single character \<open>sep\<close>.\<close>

fun split :: "char \<Rightarrow> string \<Rightarrow> string list" where
  "split sep [] = [[]]"
| "split sep (c # cs) =
     (if c = sep then [] # split sep cs
      else (case split sep cs of p # ps \<Rightarrow> (c # p) # ps | [] \<Rightarrow> [[c]]))"

text \<open>
  \<^verbatim>\<open>s.replace(sub, '')\<close> for a non-empty \<open>sub\<close>: the occurrences of \<open>sub\<close> are removed from
  left to right.
\<close>

function remove_all :: "string \<Rightarrow> string \<Rightarrow> string" where
  "remove_all sub [] = []"
| "remove_all sub (c # cs) =
     (if sub \<noteq> [] \<and> take (length sub) (c # cs) = sub
      then remove_all sub (drop (length sub) (c # cs))
      else c # remove_all sub cs)"
  by pat_completeness auto
termination
  by (relation "measure (\<lambda>(sub, s). length s)") auto

text \<open>
  \<^verbatim>\<open>int(text)\<close>: surrounding whitespace is ignored, then an optional sign and decimal
  digits, in which single underscores may separate digits. The whitespace of
  \<^verbatim>\<open>int\<close> on ASCII text is tab, line feed, vertical tab, form feed, carriage return and
  the space: unlike \<^verbatim>\<open>str.strip\<close> it does not skip the separators \<open>0x1C\<close> to \<open>0x1F\<close>.
  (The limit that recent interpreters put on the number of digits is left out.)
\<close>

definition int_space :: "char \<Rightarrow> bool" where
  "int_space c = (c \<in> {CHR 0x09, CHR 0x0A, CHR 0x0B, CHR 0x0C, CHR 0x0D, CHR '' ''})"

definition int_strip :: "string \<Rightarrow> string" where
  "int_strip s = rev (dropWhile int_space (rev (dropWhile int_space s)))"

definition digit_value :: "char \<Rightarrow> int" where
  "digit_value c = int (of_char c) - 48"

definition digits_value :: "string \<Rightarrow> int" where
  "digits_value ds = foldl (\<lambda>acc c. 10 * acc + digit_value c) 0 ds"

definition valid_digits :: "string \<Rightarrow> bool" where
  "valid_digits u =
     (u \<noteq> [] \<and> list_all (\<lambda>c. is_digit c \<or> c = CHR ''_'') u \<and>
      hd u \<noteq> CHR ''_'' \<and> last u \<noteq> CHR ''_'' \<and> \<not> contains ''__'' u)"

definition unsigned :: "string \<Rightarrow> string \<Rightarrow> error + int" where
  "unsigned text u =
     (if valid_digits u then Inr (digits_value (filter (\<lambda>c. c \<noteq> CHR ''_'') u))
      else Inl (ValueError (InvalidLiteral text)))"

definition py_int :: "string \<Rightarrow> error + int" where
  "py_int text =
     (case int_strip text of
        [] \<Rightarrow> Inl (ValueError (InvalidLiteral text))
      | c # cs \<Rightarrow>
          if c = CHR ''-'' then (case unsigned text cs of Inl e \<Rightarrow> Inl e | Inr v \<Rightarrow> Inr (- v))
          else if c = CHR ''+'' then unsigned text cs
          else unsigned text (c # cs))"

subsection \<open>Durations\<close>

definition parse_duration :: "string \<Rightarrow> error + int" where
  "parse_duration text =
     (let duration_str = strip (lower text)
      in if isdigit duration_str then py_int duration_str
         else if CHR ''h'' \<in> set duration_str then
           (if contains ''min'' duration_str then
              (let parts = split CHR ''h'' duration_str
               in case py_int (parts ! 0) of
                    Inl e \<Rightarrow> Inl e
                  | Inr hours \<Rightarrow>
                      (let remaining = strip (remove_all ''min'' (parts ! 1))
                       in if remaining \<noteq> [] then
                            (case py_int remaining of
                               Inl e \<Rightarrow> Inl e
                             | Inr minutes \<Rightarrow> Inr (hours * 60 + minutes))
                          else Inr (hours * 60 + 0)))
            else
              (case py_int (remove_all ''h'' duration_str) of
                 Inl e \<Rightarrow> Inl e
               | Inr hours \<Rightarrow> Inr (hours * 60 + 0)))
         else if contains ''min'' duration_str then py_int (remove_all ''min'' duration_str)
         else Inl (ValueError (InvalidDurationFormat duration_str)))"

text \<open>
  The formats as the specification words them: \<open>N\<close>, \<open>Nmin\<close>, \<open>Nh\<close> and \<open>NhMmin\<close>, where
  \<open>N\<close> and \<open>M\<close> are non-empty runs of digits, in any letter case.
\<close>

definition spec_duration_format :: "string \<Rightarrow> bool" where
  "spec_duration_format text =
     (let t = lower text; n = takeWhile is_digit t; r = dropWhile is_digit t
      in n \<noteq> [] \<and>
         (r = [] \<or> r = ''min'' \<or> r = ''h'' \<or>
          (case r of
             [] \<Rightarrow> False
           | c # r' \<Rightarrow> c = CHR ''h'' \<and> takeWhile is_digit r' \<noteq> [] \<and>
                        dropWhile is_digit r' = ''min'')))"

subsection \<open>The configuration adapter\<close>

text \<open>
  \<^verbatim>\<open>parse_time_to_minutes\<close> catches every \<^verbatim>\<open>ValueError\<close> of its body and raises one
  \<^verbatim>\<open>ValueError\<close> that names the text.
\<close>

definition parse_time_to_minutes :: "string \<Rightarrow> error + (int \<times> int)" where
  "parse_time_to_minutes time_str =
     (case split CHR '':'' time_str of
        [a, b] \<Rightarrow>
          (case py_int a of
             Inl _ \<Rightarrow> Inl (ValueError (TimeParseError time_str))
           | Inr hour \<Rightarrow>
               (case py_int b of
                  Inl _ \<Rightarrow> Inl (ValueError (TimeParseError time_str))
                | Inr minute \<Rightarrow>
                    if \<not> (0 \<le> hour \<and> hour \<le> 23) then Inl (ValueError (TimeParseError time_str))
                    else if \<not> (0 \<le> minute \<and> minute \<le> 59)
                    then Inl (ValueError (TimeParseError time_str))
                    else Inr (hour, minute)))
      | _ \<Rightarrow> Inl (ValueError (TimeParseError time_str)))"

text \<open>
  The \<^verbatim>\<open>TempScheduler\<close> of \<^verbatim>\<open>create_scheduler_from_config\<close>: only the three fields that
  \<^verbatim>\<open>time_to_slot\<close> reads.
\<close>

definition temp_time_to_slot :: "int \<Rightarrow> int \<Rightarrow> int \<Rightarrow> int \<Rightarrow> int \<Rightarrow> error + int" where
  "temp_time_to_slot start_hour start_minute slot_duration hour minute =
     (if slot_duration = 0 then Inl ZeroDivisionError
      else Inr (((hour - start_hour) * 60 + (minute - start_minute)) div slot_duration))"

definition parse_window :: "(int \<Rightarrow> int \<Rightarrow> error + int) \<Rightarrow> string \<Rightarrow> error + (int \<times> int)" where
  "parse_window to_slot window =
     (if CHR ''-'' \<notin> set window then Inl (ValueError (WindowFormat window))
      else
        (let start_str = takeWhile (\<lambda>c. c \<noteq> CHR ''-'') window;
             end_str = tl (dropWhile (\<lambda>c. c \<noteq> CHR ''-'') window)
         in case parse_time_to_minutes (strip start_str) of
              Inl e \<Rightarrow> Inl e
            | Inr (start_hour, start_min) \<Rightarrow>
                (case parse_time_to_minutes (strip end_str) of
                   Inl e \<Rightarrow> Inl e
                 | Inr (end_hour, end_min) \<Rightarrow>
                     (case to_slot start_hour start_min of
                        Inl e \<Rightarrow> Inl e
                      | Inr start_slot \<Rightarrow>
                          (case to_slot end_hour end_min of
                             Inl e \<Rightarrow> Inl e
                           | Inr end_slot \<Rightarrow>
                               if start_slot \<ge> end_slot
                               then Inl (ValueError (WindowOrder window))
                               else Inr (start_slot, end_slot))))))"

fun parse_availability_windows ::
  "string list \<Rightarrow> (int \<Rightarrow> int \<Rightarrow> error + int) \<Rightarrow> error + (int \<times> int) list" where
  "parse_availability_windows [] to_slot = Inr []"
| "parse_availability_windows (window # windows) to_slot =
     (case parse_window to_slot window of
        Inl e \<Rightarrow> Inl e
      | Inr w \<Rightarrow>
          (case parse_availability_windows windows to_slot of
             Inl e \<Rightarrow> Inl e
           | Inr ws \<Rightarrow> Inr (w # ws)))"

text \<open>
  The configuration, as \<^verbatim>\<open>load_config\<close> returns it: the four required fields, and the
  optional ones (\<open>None\<close> when absent). A duration is the text that \<^verbatim>\<open>str\<close> gives for the
  YAML value; an availability that is a single text stands for the list of that one
  text.
\<close>

record config =
  cfg_num_candidates :: int
  cfg_panels :: "(string \<times> string) list"
  cfg_order :: "string list"
  cfg_availabilities :: "(string \<times> string list) list"
  cfg_slot_duration_minutes :: "int option"
  cfg_start_time :: "string option"
  cfg_end_time :: "string option"
  cfg_max_gap_minutes :: "int option"
  cfg_position_constraints :: "(string \<times> position) list option"
  cfg_panel_conflicts :: "conflict_group list option"

definition get :: "'a option \<Rightarrow> 'a \<Rightarrow> 'a" where
  "get v fallback = (case v of Some x \<Rightarrow> x | None \<Rightarrow> fallback)"

text \<open>The loop over \<^verbatim>\<open>config['panels']\<close>: the only check of the durations.\<close>

fun parse_panels :: "int \<Rightarrow> (string \<times> string) list \<Rightarrow> error + (string \<times> int) list" where
  "parse_panels slot_duration [] = Inr []"
| "parse_panels slot_duration ((panel_name, duration_str) # rest) =
     (case parse_duration duration_str of
        Inl e \<Rightarrow> Inl e
      | Inr duration_minutes \<Rightarrow>
          if slot_duration = 0 then Inl ZeroDivisionError
          else if duration_minutes mod slot_duration \<noteq> 0
          then Inl (ValueError (DurationNotDivisible panel_name duration_minutes slot_duration))
          else (case parse_panels slot_duration rest of
                  Inl e \<Rightarrow> Inl e
                | Inr ps \<Rightarrow> Inr ((panel_name, duration_minutes div slot_duration) # ps)))"

fun parse_availabilities ::
  "(int \<Rightarrow> int \<Rightarrow> error + int) \<Rightarrow> (string \<times> string list) list \<Rightarrow>
   error + (string \<times> (int \<times> int) list) list" where
  "parse_availabilities to_slot [] = Inr []"
| "parse_availabilities to_slot ((panel_name, windows) # rest) =
     (case parse_availability_windows windows to_slot of
        Inl e \<Rightarrow> Inl e
      | Inr parsed_windows \<Rightarrow>
          (case parse_availabilities to_slot rest of
             Inl e \<Rightarrow> Inl e
           | Inr av \<Rightarrow> Inr ((panel_name, parsed_windows) # av)))"

definition create_scheduler_from_config :: "config \<Rightarrow> error + scheduler" where
  "create_scheduler_from_config cfg =
     (case parse_panels (get (cfg_slot_duration_minutes cfg) 15) (cfg_panels cfg) of
        Inl e \<Rightarrow> Inl e
      | Inr panels' \<Rightarrow>
     (case parse_time_to_minutes (get (cfg_start_time cfg) ''08:30'') of
        Inl e \<Rightarrow> Inl e
      | Inr (start_hour, start_minute) \<Rightarrow>
     (case parse_time_to_minutes (get (cfg_end_time cfg) ''17:00'') of
        Inl e \<Rightarrow> Inl e
      | Inr (end_hour, end_minute) \<Rightarrow>
         (let slot_duration_minutes' = get (cfg_slot_duration_minutes cfg) 15;
              total_minutes = (end_hour - start_hour) * 60 + (end_minute - start_minute)
          in if slot_duration_minutes' = 0 then Inl ZeroDivisionError
             else
               (let slots_per_day' = total_minutes div slot_duration_minutes';
                    max_gap_minutes' = get (cfg_max_gap_minutes cfg) 15
                in case parse_availabilities
                          (temp_time_to_slot start_hour start_minute slot_duration_minutes')
                          (cfg_availabilities cfg) of
                     Inl e \<Rightarrow> Inl e
                   | Inr availabilities' \<Rightarrow>
                       init (cfg_num_candidates cfg) panels' (cfg_order cfg) availabilities'
                         slots_per_day' max_gap_minutes' start_hour start_minute
                         slot_duration_minutes'
                         (get (cfg_position_constraints cfg) [])
                         (get (cfg_panel_conflicts cfg) []))))))"

definition zero_config :: config where
  "zero_config =
     \<lparr> cfg_num_candidates = 1, cfg_panels = [(''A'', ''0'')], cfg_order = [],
       cfg_availabilities = [(''A'', [''08:30-10:00''])],
       cfg_slot_duration_minutes = None, cfg_start_time = None, cfg_end_time = None,
       cfg_max_gap_minutes = None, cfg_position_constraints = None,
       cfg_panel_conflicts = None \<rparr>"

subsection \<open>Solving\<close>

text \<open>
  The CP-SAT solver is external. \<^verbatim>\<open>solve\<close> builds the model, hands it to the solver and
  stores what the solver answers: a status and, in \<^verbatim>\<open>self.solver\<close>, the values of the
  variables. Here the answer is a parameter of \<open>solve\<close>. The solver's contract is that
  with status \<^verbatim>\<open>OPTIMAL\<close> or \<^verbatim>\<open>FEASIBLE\<close> the values satisfy every constraint of the
  model (\<open>feasible\<close>).
\<close>

definition solve :: "scheduler \<Rightarrow> cp_status \<times> assignment \<Rightarrow> scheduler \<times> bool" where
  "solve s response =
     (let s' = s \<lparr> model := Some (build_model s),
                   solver := Some (snd response),
                   status := Some (fst response),
                   solution_found := (fst response = OPTIMAL \<or> fst response = FEASIBLE) \<rparr>
      in (s', solution_found s'))"

subsection \<open>Formatting\<close>

definition digit_char :: "nat \<Rightarrow> char" where
  "digit_char n = char_of (48 + n)"

fun str_nat :: "nat \<Rightarrow> string" where
  "str_nat n = (if n < 10 then [digit_char n] else str_nat (n div 10) @ [digit_char (n mod 10)])"

definition str_int :: "int \<Rightarrow> string" where
  "str_int i = (if i < 0 then CHR ''-'' # str_nat (nat (- i)) else str_nat (nat i))"

text \<open>The format \<^verbatim>\<open>{:02d}\<close>: at least two characters, padded with zeros.\<close>

definition fmt_02d :: "int \<Rightarrow> string" where
  "fmt_02d i = (if 0 \<le> i \<and> i < 10 then CHR ''0'' # str_int i else str_int i)"

definition slot_to_time :: "scheduler \<Rightarrow> int \<Rightarrow> string" where
  "slot_to_time s slot =
     (case slot_to_hm s slot of (hour, minute) \<Rightarrow> fmt_02d hour @ '':'' @ fmt_02d minute)"

subsection \<open>Reading the solution\<close>

record session =
  panel :: string
  start_time :: string
  end_time :: string
  start_slot :: int
  end_slot :: int
  duration_minutes :: int
  gap_before :: "int option"

definition make_session :: "scheduler \<Rightarrow> assignment \<Rightarrow> nat \<Rightarrow> string \<Rightarrow> session" where
  "make_session s a c p =
     (let start = ival a (StartVar c p);
          finish = start + duration s p
      in \<lparr> panel = p,
           start_time = slot_to_time s start,
           end_time = slot_to_time s finish,
           start_slot = start,
           end_slot = finish,
           duration_minutes = duration s p * slot_duration_minutes s,
           gap_before = None \<rparr>)"

text \<open>
  The loop \<^verbatim>\<open>for i in range(1, len(sessions))\<close>: every session but the first gets the
  gap to the session before it, in minutes.
\<close>

fun add_gaps :: "scheduler \<Rightarrow> session \<Rightarrow> session list \<Rightarrow> session list" where
  "add_gaps s prev [] = []"
| "add_gaps s prev (x # xs) =
     x \<lparr> gap_before := Some ((start_slot x - end_slot prev) * slot_duration_minutes s) \<rparr>
       # add_gaps s x xs"

definition sorted_sessions :: "scheduler \<Rightarrow> assignment \<Rightarrow> nat \<Rightarrow> session list" where
  "sorted_sessions s a c = sort_key start_slot (map (make_session s a c) (panel_names s))"

definition get_candidate_schedule :: "scheduler \<Rightarrow> int \<Rightarrow> error + session list" where
  "get_candidate_schedule s candidate_id =
     (if \<not> solution_found s then Inr []
      else if panels s = [] then Inr []
      else (case solver s of
              None \<Rightarrow> Inl AttributeError
            | Some a \<Rightarrow>
                if \<not> (0 \<le> candidate_id \<and> candidate_id < num_candidates s) then Inl KeyError
                else (case sorted_sessions s a (nat candidate_id) of
                        [] \<Rightarrow> Inr []
                      | x # xs \<Rightarrow> Inr (x # add_gaps s x xs))))"

definition is_order_broken :: "scheduler \<Rightarrow> assignment \<Rightarrow> nat \<Rightarrow> nat \<Rightarrow> bool" where
  "is_order_broken s a candidate order_index =
     (let p1 = order s ! order_index; p2 = order s ! (order_index + 1);
          start1 = ival a (StartVar candidate p1);
          start2 = ival a (StartVar candidate p2)
      in start1 + duration s p1 > start2)"

fun StatusName :: "cp_status \<Rightarrow> string" where
  "StatusName UNKNOWN = ''UNKNOWN''"
| "StatusName MODEL_INVALID = ''MODEL_INVALID''"
| "StatusName FEASIBLE = ''FEASIBLE''"
| "StatusName INFEASIBLE = ''INFEASIBLE''"
| "StatusName OPTIMAL = ''OPTIMAL''"

datatype summary_value = Str string | Num int

definition get_solution_summary :: "scheduler \<Rightarrow> error + (string \<times> summary_value) list" where
  "get_solution_summary s =
     (if \<not> solution_found s then Inr [(''status'', Str ''No solution found'')]
      else (case (solver s, status s) of
              (Some a, Some st) \<Rightarrow>
                (let num_breaks = int (length [(c, i). c \<leftarrow> candidates s,
                                                i \<leftarrow> [0..<length (order s) - 1],
                                                is_order_broken s a c i]);
                     ends = [ival a (StartVar c p) + duration s p.
                               c \<leftarrow> candidates s, p \<leftarrow> panel_names s]
                 in if ends = [] then Inl (ValueError MaxOfEmptySequence)
                    else Inr [(''status'', Str (StatusName st)),
                              (''order_breaks'', Num num_breaks),
                              (''day_ends_at'', Str (slot_to_time s (Max (set ends)))),
                              (''max_gap_enforced'',
                               Str (str_int (max_gap_minutes s) @ '' minutes''))])
            | _ \<Rightarrow> Inl AttributeError))"

subsection \<open>CSV export\<close>

text \<open>
  The cell of a slot and a candidate holds the name of the last panel (in the order of
  the \<^verbatim>\<open>panels\<close> dict) whose session covers the slot, or the empty string.
\<close>

definition covers :: "scheduler \<Rightarrow> assignment \<Rightarrow> nat \<Rightarrow> int \<Rightarrow> string \<times> int \<Rightarrow> bool" where
  "covers s a c slot pd =
     (ival a (StartVar c (fst pd)) \<le> slot \<and> slot < ival a (StartVar c (fst pd)) + snd pd)"

definition cell :: "scheduler \<Rightarrow> assignment \<Rightarrow> int \<Rightarrow> nat \<Rightarrow> string" where
  "cell s a slot c =
     (case filter (covers s a c slot) (panels s) of
        [] \<Rightarrow> []
      | pds \<Rightarrow> fst (last pds))"

text \<open>The \<^verbatim>\<open>csv.writer\<close> of the default dialect.\<close>

definition csv_field :: "string \<Rightarrow> string" where
  "csv_field f =
     (if list_ex (\<lambda>ch. ch \<in> {CHR '','', CHR 0x22, CHR 0x0D, CHR 0x0A}) f
      then [CHR 0x22] @ concat (map (\<lambda>ch. if ch = CHR 0x22 then [ch, ch] else [ch]) f)
           @ [CHR 0x22]
      else f)"

fun join :: "string \<Rightarrow> string list \<Rightarrow> string" where
  "join sep [] = []"
| "join sep [x] = x"
| "join sep (x # y # ys) = x @ sep @ join sep (y # ys)"

definition csv_row :: "string list \<Rightarrow> string" where
  "csv_row row =
     (if row = [[]] then [CHR 0x22, CHR 0x22] else join '','' (map csv_field row))
     @ [CHR 0x0D, CHR 0x0A]"

datatype csv_output = Returned string | Written string string

definition export_to_csv :: "scheduler \<Rightarrow> string option \<Rightarrow> string \<Rightarrow> error + csv_output" where
  "export_to_csv s filename date =
     (if \<not> solution_found s then Inl (ValueError NoSolutionFound)
      else (case solver s of
              None \<Rightarrow> Inl AttributeError
            | Some a \<Rightarrow>
                if list_ex (\<lambda>c. list_ex (\<lambda>pd. ival a (StartVar c (fst pd)) < 0 \<and> 0 < snd pd
                                              \<and> ival a (StartVar c (fst pd)) < slots_per_day s)
                                   (panels s)) (candidates s)
                then Inl KeyError
                else
                  (let slots = map int [0..<nat (slots_per_day s)];
                       header = date # [''CANDIDATE '' @ str_nat (c + 1). c \<leftarrow> candidates s];
                       rows = [(slot_to_time s slot @ ''-'' @ slot_to_time s (slot + 1))
                                 # [cell s a slot c. c \<leftarrow> candidates s].
                               slot \<leftarrow> slots];
                       content = concat (map csv_row (header # rows))
                   in (case filename of
                         None \<Rightarrow> Inr (Returned content)
                       | Some name \<Rightarrow>
                           if name = [] then Inr (Returned content)
                           else Inr (Written name content)))))"

subsection \<open>Example problems\<close>

text \<open>
  \<open>small_day\<close> is the object that \<^verbatim>\<open>InterviewScheduler(1, {"A": 1}, [], {"A": [(0, 4)]})\<close>
  builds with the default timing parameters (34 slots of 15 minutes from 08:30).
  \<open>overlapping_day\<close> differs only in that panel \<^verbatim>\<open>A\<close> has the two windows \<^verbatim>\<open>(0, 4)\<close> and
  \<^verbatim>\<open>(2, 6)\<close>.
\<close>

definition small_day :: scheduler where
  "small_day =
     \<lparr> num_candidates = 1, panels = [(''A'', 1)], order = [],
       availabilities = [(''A'', [(0, 4)])],
       slots_per_day = 34, max_gap_minutes = 15, start_time_hour = 8,
       start_time_minute = 30, slot_duration_minutes = 15,
       position_constraints = [], panel_conflicts = [],
       max_gap_slots = 1, model = None, solver = None,
       status = None, solution_found = False \<rparr>"

definition overlapping_day :: scheduler where
  "overlapping_day = small_day \<lparr> availabilities := [(''A'', [(0, 4), (2, 6)])] \<rparr>"

text \<open>
  Two half-open windows overlap when each starts before the other ends; a sequence of
  windows is pairwise disjoint when no two of its windows overlap.
\<close>

definition windows_overlap :: "int \<times> int \<Rightarrow> int \<times> int \<Rightarrow> bool" where
  "windows_overlap v w = (fst v < snd w \<and> fst w < snd v)"

fun pairwise_disjoint :: "(int \<times> int) list \<Rightarrow> bool" where
  "pairwise_disjoint [] = True"
| "pairwise_disjoint (w # ws) =
     (list_all (\<lambda>v. \<not> windows_overlap w v) ws \<and> pairwise_disjoint ws)"

text \<open>
  \<open>lunch_day\<close>: two candidates, the panels \<^verbatim>\<open>A\<close> and \<^verbatim>\<open>Lunch\<close> of one slot each, available
  all day, preferred order \<^verbatim>\<open>A, Lunch\<close>, and a maximal gap of one slot. In \<open>lunch_plan\<close>
  both candidates have lunch in slot 0; the first candidate then meets \<^verbatim>\<open>A\<close> in slot 1
  and the second in slot 2. In \<open>early_plan\<close> the first candidate meets \<^verbatim>\<open>A\<close> in slot 0 and
  has lunch in slot 1, the second the other way round. \<open>solved_day\<close> is \<open>lunch_day\<close>
  after a solve that returned \<open>lunch_plan\<close> as optimal. \<open>pinned_day\<close> pins \<^verbatim>\<open>A\<close> to
  position 1.
\<close>

definition lunch_day :: scheduler where
  "lunch_day =
     \<lparr> num_candidates = 2, panels = [(''A'', 1), (''Lunch'', 1)], order = [''A'', ''Lunch''],
       availabilities = [(''A'', [(0, 34)]), (''Lunch'', [(0, 34)])],
       slots_per_day = 34, max_gap_minutes = 15, start_time_hour = 8,
       start_time_minute = 30, slot_duration_minutes = 15,
       position_constraints = [], panel_conflicts = [],
       max_gap_slots = 1, model = None, solver = None,
       status = None, solution_found = False \<rparr>"

definition lunch_plan :: assignment where
  "lunch_plan =
     \<lparr> ival = (\<lambda>v. case v of
                    StartVar c p \<Rightarrow> (if p = ''Lunch'' then 0 else if c = 0 then 1 else 2)
                  | NumBreaks \<Rightarrow> 2
                  | Makespan \<Rightarrow> 3),
       bval = (\<lambda>v. case v of
                    Avail c p i \<Rightarrow> i = 0
                  | Follows c p1 p2 \<Rightarrow> p1 = ''Lunch'' \<and> p2 = ''A''
                  | PosBefore c other p \<Rightarrow> other = ''Lunch''
                  | Break c i \<Rightarrow> True
                  | _ \<Rightarrow> False) \<rparr>"

definition early_plan :: assignment where
  "early_plan =
     \<lparr> ival = (\<lambda>v. case v of
                    StartVar c p \<Rightarrow> (if (p = ''A'') = (c = 0) then 0 else 1)
                  | NumBreaks \<Rightarrow> 1
                  | Makespan \<Rightarrow> 2),
       bval = (\<lambda>v. case v of
                    Avail c p i \<Rightarrow> i = 0
                  | Follows c p1 p2 \<Rightarrow> (if c = 0 then p1 = ''A'' \<and> p2 = ''Lunch''
                                          else p1 = ''Lunch'' \<and> p2 = ''A'')
                  | Break c i \<Rightarrow> c = 1
                  | _ \<Rightarrow> False) \<rparr>"

definition solved_day :: scheduler where
  "solved_day = fst (solve lunch_day (OPTIMAL, lunch_plan))"

definition pinned_day :: scheduler where
  "pinned_day = lunch_day \<lparr> position_constraints := [(''A'', PosInt 1)] \<rparr>"

text \<open>
  The sessions of two candidates with the same panel overlap when each starts before
  the other ends.
\<close>

definition sessions_overlap :: "scheduler \<Rightarrow> assignment \<Rightarrow> nat \<Rightarrow> nat \<Rightarrow> string \<Rightarrow> bool" where
  "sessions_overlap s a c1 c2 p =
     (ival a (StartVar c1 p) < ival a (StartVar c2 p) + duration s p \<and>
      ival a (StartVar c2 p) < ival a (StartVar c1 p) + duration s p)"

text \<open>
  \<open>zero_config\<close> (with the adapter) is a configuration whose only panel has the duration
  \<^verbatim>\<open>0\<close>; \<open>zero_day\<close> is the scheduler built from it. \<open>odd_config\<close> gives the panel
  \<^verbatim>\<open>20min\<close> instead, which is not a multiple of the default slot width of 15 minutes.
\<close>

definition zero_day :: scheduler where
  "zero_day = small_day \<lparr> panels := [(''A'', 0)], availabilities := [(''A'', [(0, 6)])] \<rparr>"

definition odd_config :: config where
  "odd_config = zero_config \<lparr> cfg_panels := [(''A'', ''20min'')] \<rparr>"

text \<open>
  \<open>gap_day\<close>: one candidate and three panels, of which \<^verbatim>\<open>A\<close> and \<^verbatim>\<open>B\<close> last zero slots
  and must lie in the window \<^verbatim>\<open>(0, 1)\<close>, while \<^verbatim>\<open>C\<close> lasts one slot and must lie in
  \<^verbatim>\<open>(20, 34)\<close>; the maximal gap is one slot. In \<open>gap_plan\<close> the sessions \<^verbatim>\<open>A\<close> and \<^verbatim>\<open>B\<close>
  are both at slot 0 and follow each other, and \<^verbatim>\<open>C\<close> is at slot 20. \<open>gap_solved_day\<close>
  is \<open>gap_day\<close> after a solve that returned \<open>gap_plan\<close>, and \<open>gap_schedule\<close> the schedule
  of its candidate.
\<close>

definition gap_day :: scheduler where
  "gap_day =
     \<lparr> num_candidates = 1, panels = [(''A'', 0), (''B'', 0), (''C'', 1)], order = [],
       availabilities = [(''A'', [(0, 1)]), (''B'', [(0, 1)]), (''C'', [(20, 34)])],
       slots_per_day = 34, max_gap_minutes = 15, start_time_hour = 8,
       start_time_minute = 30, slot_duration_minutes = 15,
       position_constraints = [], panel_conflicts = [],
       max_gap_slots = 1, model = None, solver = None,
       status = None, solution_found = False \<rparr>"

definition gap_plan :: assignment where
  "gap_plan =
     \<lparr> ival = (\<lambda>v. case v of
                    StartVar c p \<Rightarrow> (if p = ''C'' then 20 else 0)
                  | NumBreaks \<Rightarrow> 0
                  | Makespan \<Rightarrow> 21),
       bval = (\<lambda>v. case v of
                    Avail c p i \<Rightarrow> i = 0
                  | Follows c p1 p2 \<Rightarrow> p1 \<noteq> ''C'' \<and> p2 \<noteq> ''C''
                  | GapAfter c p1 p2 p3 \<Rightarrow> True
                  | _ \<Rightarrow> False) \<rparr>"

definition gap_solved_day :: scheduler where
  "gap_solved_day = fst (solve gap_day (OPTIMAL, gap_plan))"

definition gap_schedule :: "session list" where
  "gap_schedule =
     [\<lparr> panel = ''A'', start_time = ''08:30'', end_time = ''08:30'', start_slot = 0,
        end_slot = 0, duration_minutes = 0, gap_before = None \<rparr>,
      \<lparr> panel = ''B'', start_time = ''08:30'', end_time = ''08:30'', start_slot = 0,
        end_slot = 0, duration_minutes = 0, gap_before = Some 0 \<rparr>,
      \<lparr> panel = ''C'', start_time = ''13:30'', end_time = ''13:45'', start_slot = 20,
        end_slot = 21, duration_minutes = 15, gap_before = Some 300 \<rparr>]"

section \<open>Properties\<close>

subsection \<open>Loops that may raise\<close>

lemma for_each_ok: "for_each f xs = Inr u \<longleftrightarrow> (\<forall>x \<in> set xs. f x = Inr ())"
  by (induction xs) (auto split: sum.splits)

lemma and_then_ok: "and_then a b = Inr u \<longleftrightarrow> a = Inr () \<and> b = Inr ()"
  by (cases a) (auto simp: and_then_def)

lemma init_ok:
  "init n ps ord av spd gap h0 m0 w pos conf = Inr s \<longleftrightarrow>
     w \<noteq> 0 \<and>
     s = \<lparr> num_candidates = n, panels = ps, order = ord, availabilities = av,
           slots_per_day = spd, max_gap_minutes = gap, start_time_hour = h0,
           start_time_minute = m0, slot_duration_minutes = w,
           position_constraints = pos, panel_conflicts = conf,
           max_gap_slots = gap div w, model = None, solver = None,
           status = None, solution_found = False \<rparr> \<and>
     validate_parameters s = Inr ()"
  unfolding init_def Let_def by (cases "w = 0") (auto split: sum.splits)

lemma init_validated:
  "init n ps ord av spd gap h0 m0 w pos conf = Inr s \<Longrightarrow> validate_parameters s = Inr ()"
  unfolding init_ok by blast

lemma init_small_day:
  "init 1 [(''A'', 1)] [] [(''A'', [(0, 4)])] 34 15 8 30 15 [] [] = Inr small_day"
  by (simp add: init_ok small_day_def validate_parameters_def and_then_ok for_each_ok
      check_has_availability_def has_key_def check_windows_def check_window_def)

lemma init_overlapping_day:
  "init 1 [(''A'', 1)] [] [(''A'', [(0, 4), (2, 6)])] 34 15 8 30 15 [] [] = Inr overlapping_day"
  by (simp add: init_ok overlapping_day_def small_day_def validate_parameters_def and_then_ok
      for_each_ok check_has_availability_def has_key_def check_windows_def check_window_def)

subsection \<open>Timeline\<close>

text \<open>
  C6, as the code has it. \<^verbatim>\<open>time_to_slot\<close> has no range check: on every scheduler that
  the constructor returns it returns the floor of
  \<open>((h - H0) * 60 + (m - M0)) / W\<close> for every hour and minute, also when that slot
  index is negative or not below \<^verbatim>\<open>slots_per_day\<close>.
\<close>

theorem time_to_slot_returns:
  "init n ps ord av spd gap h0 m0 w pos conf = Inr s \<Longrightarrow>
   time_to_slot s h m = Inr (((h - h0) * 60 + (m - m0)) div w)"
  by (auto simp: init_ok time_to_slot_def)

theorem time_to_slot_returns_witness:
  "init 1 [(''A'', 1)] [] [(''A'', [(0, 4)])] 34 15 8 30 15 [] [] = Inr small_day \<and>
   time_to_slot small_day 9 15 = Inr 3"
  using time_to_slot_returns [OF init_small_day, of 9 15] init_small_day by simp

text \<open>
  C6 as stated fails: with the default day (34 slots from 08:30), 08:00 is slot \<open>-2\<close>
  and 17:00 is slot 34, and both are returned, not refused.
\<close>

theorem time_to_slot_out_of_range:
  "init 1 [(''A'', 1)] [] [(''A'', [(0, 4)])] 34 15 8 30 15 [] [] = Inr small_day \<and>
   slots_per_day small_day = 34 \<and>
   time_to_slot small_day 8 0 = Inr (- 2) \<and>
   time_to_slot small_day 17 0 = Inr 34"
  using init_small_day by (simp add: time_to_slot_def small_day_def)

text \<open>
  C8, the round trip. On every scheduler that the constructor returns, a slot index
  \<open>k\<close> (any integer, so in particular \<open>0 \<le> k \<le> S\<close>) converted to an hour and a
  minute converts back to \<open>k\<close>; and a clock time \<open>(h, m)\<close> with \<open>0 \<le> m < 60\<close> that is
  slot-aligned (its distance from the start of the day is a multiple of the slot
  width) converts to a slot that converts back to \<open>(h, m)\<close>.
\<close>

theorem slot_round_trip:
  assumes "init n ps ord av spd gap h0 m0 w pos conf = Inr s"
  shows "time_to_slot s (fst (slot_to_hm s k)) (snd (slot_to_hm s k)) = Inr k \<and>
         (0 \<le> m \<and> m < 60 \<and> ((h - h0) * 60 + (m - m0)) mod w = 0 \<longrightarrow>
            (\<exists>j. time_to_slot s h m = Inr j \<and> slot_to_hm s j = (h, m)))"
proof -
  from assms have w: "w \<noteq> 0" and sw: "slot_duration_minutes s = w"
    and sh: "start_time_hour s = h0" and sm: "start_time_minute s = m0"
    by (auto simp: init_ok)
  let ?t = "k * w + m0"
  have "(?t div 60) * 60 + (?t mod 60 - m0) = k * w"
    by (simp add: algebra_simps)
  then have bk: "time_to_slot s (fst (slot_to_hm s k)) (snd (slot_to_hm s k)) = Inr k"
    using w by (simp add: time_to_slot_def slot_to_hm_def Let_def sw sh sm)
  have fw: "\<exists>j. time_to_slot s h m = Inr j \<and> slot_to_hm s j = (h, m)"
    if m: "0 \<le> m" "m < 60" and al: "((h - h0) * 60 + (m - m0)) mod w = 0"
  proof -
    let ?d = "(h - h0) * 60 + (m - m0)"
    have "(?d div w) * w = ?d"
      using al by (metis add.right_neutral div_mult_mod_eq)
    then have tot: "(?d div w) * w + m0 = (h - h0) * 60 + m"
      by simp
    have "(m + (h - h0) * 60) div 60 = (h - h0) + m div 60"
      by (rule div_mult_self1) simp
    moreover have "(m + (h - h0) * 60) mod 60 = m mod 60"
      by (rule mod_mult_self1)
    ultimately have "((h - h0) * 60 + m) div 60 = h - h0" and "((h - h0) * 60 + m) mod 60 = m"
      using m by (simp_all add: add.commute)
    then have "slot_to_hm s (?d div w) = (h, m)"
      using tot by (simp add: slot_to_hm_def Let_def sw sh sm)
    then show ?thesis
      using w by (simp add: time_to_slot_def sw sh sm)
  qed
  show ?thesis
  proof (intro conjI impI)
    show "time_to_slot s (fst (slot_to_hm s k)) (snd (slot_to_hm s k)) = Inr k"
      by (rule bk)
  next
    assume "0 \<le> m \<and> m < 60 \<and> ((h - h0) * 60 + (m - m0)) mod w = 0"
    then have "0 \<le> m" and "m < 60" and "((h - h0) * 60 + (m - m0)) mod w = 0"
      by simp_all
    then show "\<exists>j. time_to_slot s h m = Inr j \<and> slot_to_hm s j = (h, m)"
      by (rule fw)
  qed
qed

theorem slot_round_trip_witness:
  "time_to_slot small_day (fst (slot_to_hm small_day 34)) (snd (slot_to_hm small_day 34)) = Inr 34 \<and>
   slot_to_hm small_day 34 = (17, 0) \<and>
   (\<exists>j. time_to_slot small_day 12 45 = Inr j \<and> slot_to_hm small_day j = (12, 45))"
  using slot_round_trip [OF init_small_day, of 34 45 12]
  by (simp add: slot_to_hm_def small_day_def)

subsection \<open>Validation of the availability windows\<close>

text \<open>
  C5, as the code has it. The validator checks each window on its own: in every
  problem that passes validation, every availability window \<open>(lo, hi)\<close> of every
  panel satisfies \<open>0 \<le> lo < hi \<le> S\<close>. It does not compare two windows of a panel.
\<close>

theorem validated_windows_in_day:
  assumes "init n ps ord av spd gap h0 m0 w pos conf = Inr s"
    and "(p, ws) \<in> set (availabilities s)" and "(lo, hi) \<in> set ws"
  shows "0 \<le> lo \<and> lo < hi \<and> hi \<le> slots_per_day s"
proof -
  from assms(1) have "validate_parameters s = Inr ()"
    by (rule init_validated)
  then have "for_each (check_windows s) (availabilities s) = Inr ()"
    by (simp add: validate_parameters_def and_then_ok)
  with assms(2) have "check_windows s (p, ws) = Inr ()"
    by (simp add: for_each_ok)
  with assms(3) have "check_window s p (lo, hi) = Inr ()"
    by (simp add: check_windows_def for_each_ok)
  then show ?thesis
    by (simp add: check_window_def split: if_splits)
qed

theorem validated_windows_in_day_witness:
  "(''A'', [(0, 4), (2, 6)]) \<in> set (availabilities overlapping_day) \<and>
   (2, 6) \<in> set [(0, 4), (2, 6 :: int)] \<and>
   (0 :: int) \<le> 2 \<and> (2 :: int) < 6 \<and> 6 \<le> slots_per_day overlapping_day"
  using validated_windows_in_day [OF init_overlapping_day, of "''A''" "[(0, 4), (2, 6)]" 2 6]
  by (simp add: overlapping_day_def small_day_def)

text \<open>
  C5 as stated fails: the problem whose only panel has the windows \<open>(0, 4)\<close> and
  \<open>(2, 6)\<close> passes validation, and the two windows overlap.
\<close>

theorem overlapping_windows_accepted:
  "init 1 [(''A'', 1)] [] [(''A'', [(0, 4), (2, 6)])] 34 15 8 30 15 [] [] = Inr overlapping_day \<and>
   availabilities overlapping_day = [(''A'', [(0, 4), (2, 6)])] \<and>
   \<not> pairwise_disjoint [(0, 4), (2, 6)]"
  using init_overlapping_day by (simp add: overlapping_day_def small_day_def windows_overlap_def)

subsection \<open>Feasible assignments\<close>

lemmas model_defs =
  feasible_def build_model_def new_start_vars_def new_interval_vars_def
  add_basic_constraints_def add_gap_constraints_def gap_constraints_def
  follows_constraints_def add_position_constraints_def position_constraint_def
  add_panel_conflict_constraints_def add_order_constraints_def set_objective_def
  break_vars_def availability_constraints_def interval_vars_def interval_var_def
  start_var_def panel_names_def duration_def lunch_like_panels_def
  intervals_disjoint_def Let_def

lemma feasible_lunch_plan: "feasible lunch_day lunch_plan"
  by (simp add: model_defs candidates_def lunch_day_def lunch_plan_def upt_rec
      enumerate_eq_zip)


lemma feasible_early_plan: "feasible lunch_day early_plan"
  by (simp add: model_defs candidates_def lunch_day_def early_plan_def upt_rec
      enumerate_eq_zip)

lemma feasibleD: "feasible s a \<Longrightarrow> k \<in> set (fst (build_model s)) \<Longrightarrow> holds a k"
  by (simp add: feasible_def list_all_iff)

lemma build_model_parts:
  "set (fst (build_model s)) =
     set (new_start_vars s) \<union> set (new_interval_vars s) \<union> set (add_basic_constraints s)
     \<union> set (add_gap_constraints s) \<union> set (add_position_constraints s)
     \<union> set (add_panel_conflict_constraints s) \<union> set (add_order_constraints s)
     \<union> set (fst (set_objective s (break_vars s)))"
  by (auto simp: build_model_def)

lemma candidates_iff: "c \<in> set (candidates s) \<longleftrightarrow> int c < num_candidates s"
  by (auto simp: candidates_def)

lemma distinct_candidates: "distinct (candidates s)"
  by (simp add: candidates_def)

lemma intervals_disjoint_sym: "intervals_disjoint a i j \<Longrightarrow> intervals_disjoint a j i"
  by (auto simp: intervals_disjoint_def)

lemma no_overlap_map:
  "no_overlap a (map g xs) \<Longrightarrow> x \<in> set xs \<Longrightarrow> y \<in> set xs \<Longrightarrow> x \<noteq> y \<Longrightarrow>
   intervals_disjoint a (g x) (g y)"
proof (induction xs)
  case Nil
  then show ?case by simp
next
  case (Cons z zs)
  then show ?case
    by (auto simp: list_all_iff intro: intervals_disjoint_sym)
qed

lemma panel_no_overlap:
  assumes "feasible s a" and "p \<in> set (panel_names s)" and "p \<notin> lunch_like_panels"
  shows "no_overlap a (map (\<lambda>c. interval_vars s c p) (candidates s))"
proof -
  have "NoOverlap (map (\<lambda>c. interval_vars s c p) (candidates s)) \<in> set (add_basic_constraints s)"
    using assms(2,3) by (auto simp: add_basic_constraints_def)
  then have "NoOverlap (map (\<lambda>c. interval_vars s c p) (candidates s))
               \<in> set (fst (build_model s))"
    unfolding build_model_parts by blast
  with assms(1) have "holds a (NoOverlap (map (\<lambda>c. interval_vars s c p) (candidates s)))"
    by (rule feasibleD)
  then show ?thesis by simp
qed

text \<open>
  C2. In every feasible assignment of the model (so in every solution that a successful
  solve returns), for every panel outside the shared-panel set, which is \<open>{''Lunch''}\<close>, the
  sessions of two different candidates do not overlap. A panel in the set is exempt:
  in \<open>lunch_plan\<close>, a feasible assignment for \<open>lunch_day\<close>, both candidates have lunch in
  the same slot.
\<close>

theorem panel_sessions_disjoint:
  "(feasible s a \<and> p \<in> set (panel_names s) \<and> p \<notin> lunch_like_panels \<and>
    int c1 < num_candidates s \<and> int c2 < num_candidates s \<and> c1 \<noteq> c2
      \<longrightarrow> \<not> sessions_overlap s a c1 c2 p) \<and>
   lunch_like_panels = {''Lunch''} \<and>
   feasible lunch_day lunch_plan \<and> sessions_overlap lunch_day lunch_plan 0 1 ''Lunch''"
proof (intro conjI impI)
  assume h: "feasible s a \<and> p \<in> set (panel_names s) \<and> p \<notin> lunch_like_panels \<and>
    int c1 < num_candidates s \<and> int c2 < num_candidates s \<and> c1 \<noteq> c2"
  then have c1: "c1 \<in> set (candidates s)" and c2: "c2 \<in> set (candidates s)"
    by (simp_all add: candidates_iff)
  from h have "no_overlap a (map (\<lambda>c. interval_vars s c p) (candidates s))"
    by (intro panel_no_overlap) simp_all
  then have "intervals_disjoint a (interval_vars s c1 p) (interval_vars s c2 p)"
    using c1 c2 h by (intro no_overlap_map) simp_all
  then show "\<not> sessions_overlap s a c1 c2 p"
    by (auto simp: sessions_overlap_def intervals_disjoint_def interval_vars_def
        interval_var_def start_var_def)
next
  show "lunch_like_panels = {''Lunch''}" by (simp add: lunch_like_panels_def)
  show "feasible lunch_day lunch_plan" by (rule feasible_lunch_plan)
  show "sessions_overlap lunch_day lunch_plan 0 1 ''Lunch''"
    by (simp add: sessions_overlap_def lunch_plan_def lunch_day_def duration_def)
qed

theorem panel_sessions_disjoint_witness:
  "feasible lunch_day lunch_plan \<and> ''A'' \<in> set (panel_names lunch_day) \<and>
   ''A'' \<notin> lunch_like_panels \<and> int 0 < num_candidates lunch_day \<and>
   int 1 < num_candidates lunch_day \<and> (0 :: nat) \<noteq> 1 \<and>
   \<not> sessions_overlap lunch_day lunch_plan 0 1 ''A''"
proof -
  have h: "''A'' \<in> set (panel_names lunch_day)" "''A'' \<notin> lunch_like_panels"
    "int 0 < num_candidates lunch_day" "int 1 < num_candidates lunch_day"
    by (simp_all add: panel_names_def lunch_day_def lunch_like_panels_def)
  from panel_sessions_disjoint [of lunch_day lunch_plan "''A''" 0 1] feasible_lunch_plan h
  show ?thesis by simp
qed

lemma objective_in_model:
  "k \<in> set (fst (set_objective s (break_vars s))) \<Longrightarrow> k \<in> set (fst (build_model s))"
  unfolding build_model_parts by blast

lemma feasible_objective:
  assumes "feasible s a"
  shows "0 \<le> ival a Makespan" and "ival a Makespan \<le> slots_per_day s"
    and "ival a NumBreaks = eval a (BoolSum (break_vars s))"
    and "objective_value s a = ival a NumBreaks * ((slots_per_day s + 1) * 1000) + ival a Makespan"
proof -
  have "Domain Makespan 0 (slots_per_day s) \<in> set (fst (build_model s))"
    by (rule objective_in_model) (simp add: set_objective_def)
  with assms have "holds a (Domain Makespan 0 (slots_per_day s))" by (rule feasibleD)
  then show "0 \<le> ival a Makespan" and "ival a Makespan \<le> slots_per_day s" by simp_all
  have "Linear (EQ (IVar NumBreaks) (BoolSum (break_vars s))) [] \<in> set (fst (build_model s))"
    by (rule objective_in_model) (simp add: set_objective_def)
  with assms have "holds a (Linear (EQ (IVar NumBreaks) (BoolSum (break_vars s))) [])"
    by (rule feasibleD)
  then show "ival a NumBreaks = eval a (BoolSum (break_vars s))" by simp
  show "objective_value s a = ival a NumBreaks * ((slots_per_day s + 1) * 1000) + ival a Makespan"
    by (simp add: objective_value_def build_model_def set_objective_def BIG_def)
qed

text \<open>
  C3. For every feasible assignment the objective is \<open>num_breaks * B + makespan\<close> with
  \<open>B = (slots_per_day + 1) * 1000\<close>, where \<open>num_breaks\<close> is the number of break variables
  that are set and \<open>0 \<le> makespan \<le> slots_per_day\<close>; and of two feasible assignments of the
  same model, the one with strictly fewer breaks has the strictly smaller objective,
  whatever the two makespans are.
\<close>

theorem breaks_before_makespan:
  assumes a: "feasible s a" and b: "feasible s b"
  shows "objective_value s a = ival a NumBreaks * ((slots_per_day s + 1) * 1000) + ival a Makespan
         \<and> ival a NumBreaks = int (length (filter (bval a) (break_vars s)))
         \<and> 0 \<le> ival a Makespan \<and> ival a Makespan \<le> slots_per_day s
         \<and> (ival a NumBreaks < ival b NumBreaks \<longrightarrow> objective_value s a < objective_value s b)"
proof -
  let ?B = "(slots_per_day s + 1) * 1000"
  note fa = feasible_objective [OF a] and fb = feasible_objective [OF b]
  have count: "eval a (BoolSum vs) = int (length (filter (bval a) vs))" for vs
    by (induction vs) simp_all
  have "objective_value s a < objective_value s b" if lt: "ival a NumBreaks < ival b NumBreaks"
  proof -
    have S: "0 \<le> slots_per_day s" using fa(1,2) by simp
    then have B: "0 \<le> ?B" by simp
    from lt have "ival a NumBreaks + 1 \<le> ival b NumBreaks" by simp
    then have "(ival a NumBreaks + 1) * ?B \<le> ival b NumBreaks * ?B"
      using B by (rule mult_right_mono)
    then have "ival a NumBreaks * ?B + ?B \<le> ival b NumBreaks * ?B"
      by (simp add: algebra_simps)
    moreover have "ival a Makespan < ?B" using fa(2) S by simp
    moreover have "0 \<le> ival b Makespan" using fb(1) .
    ultimately show ?thesis unfolding fa(4) fb(4) by linarith
  qed
  then show ?thesis using fa count by simp
qed


theorem breaks_before_makespan_witness:
  "feasible lunch_day early_plan \<and> feasible lunch_day lunch_plan \<and>
   ival early_plan NumBreaks < ival lunch_plan NumBreaks \<and>
   objective_value lunch_day early_plan = 35002 \<and>
   objective_value lunch_day lunch_plan = 70003 \<and>
   objective_value lunch_day early_plan < objective_value lunch_day lunch_plan"
proof -
  have lt: "ival early_plan NumBreaks < ival lunch_plan NumBreaks"
    by (simp add: early_plan_def lunch_plan_def)
  have "objective_value lunch_day early_plan = 35002"
    using breaks_before_makespan [OF feasible_early_plan feasible_lunch_plan]
    by (simp add: early_plan_def lunch_day_def)
  moreover have "objective_value lunch_day lunch_plan = 70003"
    using feasible_objective(4) [OF feasible_lunch_plan]
    by (simp add: lunch_plan_def lunch_day_def)
  ultimately show ?thesis using lt feasible_early_plan feasible_lunch_plan by simp
qed

lemma feasible_pinned_plan: "feasible pinned_day lunch_plan"
  by (simp add: model_defs candidates_def pinned_day_def lunch_day_def lunch_plan_def upt_rec
      enumerate_eq_zip)

lemma position_in_model:
  assumes "c \<in> set (candidates s)" and "(pn, position) \<in> set (position_constraints s)"
    and "k \<in> set (position_constraint s c pn position)"
  shows "k \<in> set (fst (build_model s))"
proof -
  from assms(2) have "position_constraints s \<noteq> []" by auto
  with assms have "k \<in> set (add_position_constraints s)"
    by (auto simp: add_position_constraints_def)
  then show ?thesis unfolding build_model_parts by blast
qed

lemma bool_sum_filter:
  "eval a (BoolSum [g x. x \<leftarrow> xs, P x]) = int (length (filter (\<lambda>x. P x \<and> bval a (g x)) xs))"
  by (induction xs) simp_all

text \<open>
  C4. For every panel pinned to an integer position \<open>k\<close> and every candidate, in every
  feasible assignment exactly \<open>k\<close> of the candidate's other panels have ended (end slot
  at most the start slot of the pinned panel) when the pinned panel begins.
\<close>

theorem integer_position_count:
  assumes feas: "feasible s a" and c: "int c < num_candidates s"
    and pin: "(pn, PosInt k) \<in> set (position_constraints s)"
  shows "int (length (filter (\<lambda>other. other \<noteq> pn \<and>
            ival a (StartVar c other) + duration s other \<le> ival a (StartVar c pn))
          (panel_names s))) = k"
proof -
  from c have cs: "c \<in> set (candidates s)" by (simp add: candidates_iff)
  note inm = position_in_model [OF cs pin]
  let ?done = "\<lambda>other. ival a (StartVar c other) + duration s other \<le> ival a (StartVar c pn)"
  have iff: "bval a (PosBefore c other pn) \<longleftrightarrow> ?done other"
    if o: "other \<in> set (panel_names s)" "other \<noteq> pn" for other
  proof -
    let ?e = "Plus (start_var c other) (Const (duration s other))"
    have "Linear (LE ?e (start_var c pn)) [Is (PosBefore c other pn)]
            \<in> set (fst (build_model s))"
      using o by (intro inm) (auto simp: position_constraint_def)
    with feas have 1: "holds a (Linear (LE ?e (start_var c pn)) [Is (PosBefore c other pn)])"
      by (rule feasibleD)
    have "Linear (LT (start_var c pn) ?e) [IsNot (PosBefore c other pn)]
            \<in> set (fst (build_model s))"
      using o by (intro inm) (auto simp: position_constraint_def)
    with feas have 2: "holds a (Linear (LT (start_var c pn) ?e) [IsNot (PosBefore c other pn)])"
      by (rule feasibleD)
    from 1 2 show ?thesis by (auto simp: start_var_def)
  qed
  let ?sum = "BoolSum [PosBefore c other pn. other \<leftarrow> panel_names s, other \<noteq> pn]"
  have "Linear (EQ ?sum (Const k)) [] \<in> set (fst (build_model s))"
    by (intro inm) (simp add: position_constraint_def)
  with feas have "holds a (Linear (EQ ?sum (Const k)) [])" by (rule feasibleD)
  then have "eval a ?sum = k" by simp
  then have "int (length (filter (\<lambda>other. other \<noteq> pn \<and> bval a (PosBefore c other pn))
                      (panel_names s))) = k"
    by (simp only: bool_sum_filter)
  moreover have "filter (\<lambda>other. other \<noteq> pn \<and> bval a (PosBefore c other pn)) (panel_names s)
               = filter (\<lambda>other. other \<noteq> pn \<and> ?done other) (panel_names s)"
    by (rule filter_cong) (auto simp: iff)
  ultimately show ?thesis by simp
qed

theorem integer_position_count_witness:
  "feasible pinned_day lunch_plan \<and> int 1 < num_candidates pinned_day \<and>
   (''A'', PosInt 1) \<in> set (position_constraints pinned_day) \<and>
   int (length (filter (\<lambda>other. other \<noteq> ''A'' \<and>
          ival lunch_plan (StartVar 1 other) + duration pinned_day other
            \<le> ival lunch_plan (StartVar 1 ''A''))
        (panel_names pinned_day))) = 1"
proof -
  have h: "int 1 < num_candidates pinned_day"
    "(''A'', PosInt 1) \<in> set (position_constraints pinned_day)"
    by (simp_all add: pinned_day_def lunch_day_def)
  from integer_position_count [OF feasible_pinned_plan h] feasible_pinned_plan h
  show ?thesis by simp
qed


subsection \<open>The gap bound\<close>

lemma sum_card_all_one:
  fixes g :: "'a \<Rightarrow> int"
  assumes fin: "finite A" and le: "\<And>a. a \<in> A \<Longrightarrow> g a \<le> 1" and tot: "sum g A = int (card A)"
  shows "\<forall>a\<in>A. g a = 1"
proof (rule ccontr)
  assume "\<not> (\<forall>a\<in>A. g a = 1)"
  then obtain b where b: "b \<in> A" "g b \<noteq> 1" by blast
  with le have gb: "g b \<le> 0" by force
  have split: "sum g A = g b + sum g (A - {b})"
    using fin b(1) by (simp add: sum.remove)
  have "sum g (A - {b}) \<le> (\<Sum>a\<in>A - {b}. 1)"
    by (rule sum_mono) (simp add: le)
  then have "sum g (A - {b}) \<le> int (card (A - {b}))" by simp
  moreover have "card A = Suc (card (A - {b}))"
    using fin b(1) by (rule card.remove)
  ultimately show False using split gb tot by simp
qed

lemma follows_chain:
  fixes f :: "'a \<Rightarrow> 'a \<Rightarrow> bool" and st :: "'a \<Rightarrow> int"
  assumes dist: "distinct ys" and srt: "sorted (map st ys)"
    and inc: "\<And>u v. u \<in> set ys \<Longrightarrow> v \<in> set ys \<Longrightarrow> u \<noteq> v \<Longrightarrow> f u v \<Longrightarrow> st u < st v"
    and outdeg: "\<And>p. p \<in> set ys \<Longrightarrow> (\<Sum>v\<in>set ys - {p}. if f p v then 1 else 0) \<le> (1::int)"
    and indeg: "\<And>p. p \<in> set ys \<Longrightarrow> (\<Sum>u\<in>set ys - {p}. if f u p then 1 else 0) \<le> (1::int)"
    and total: "(\<Sum>p\<in>set ys. \<Sum>v\<in>set ys - {p}. if f p v then 1 else 0) = int (length ys) - 1"
    and i: "i + 1 < length ys"
  shows "f (ys ! i) (ys ! (i + 1))"
proof -
  let ?P = "set ys" and ?n = "length ys"
  define out :: "'a \<Rightarrow> int" where "out p = (\<Sum>v\<in>?P - {p}. if f p v then 1 else 0)" for p
  define m where "m = ys ! (?n - 1)"
  from i have n: "0 < ?n" by (cases ys) simp_all
  from i have nn: "int (?n - 1) = int ?n - 1" by (cases ys) simp_all
  then have mP: "m \<in> ?P" unfolding m_def by (intro nth_mem) simp
  have mono: "st (ys ! a) \<le> st (ys ! b)" if "a \<le> b" "b < ?n" for a b
    using sorted_nth_mono [OF srt, of a b] that by simp
  have m_max: "st v \<le> st m" if "v \<in> ?P" for v
  proof -
    from that obtain k where k: "k < ?n" "ys ! k = v" by (auto simp: in_set_conv_nth)
    then show ?thesis using mono [of k "?n - 1"] by (simp add: m_def)
  qed
  have out_m: "out m = 0"
    unfolding out_def
  proof (rule sum.neutral, rule ballI)
    fix v assume v: "v \<in> ?P - {m}"
    show "(if f m v then 1 else 0) = (0::int)"
    proof (cases "f m v")
      case True
      with v mP have "st m < st v" using inc [of m v] by auto
      moreover have "st v \<le> st m" using v m_max by simp
      ultimately show ?thesis by simp
    qed simp
  qed
  have "sum out ?P = out m + sum out (?P - {m})"
    using mP by (simp add: sum.remove)
  moreover have "sum out ?P = int ?n - 1"
    using total by (simp add: out_def)
  moreover have "card (?P - {m}) = ?n - 1"
    using mP dist by (simp add: distinct_card)
  ultimately have "sum out (?P - {m}) = int (card (?P - {m}))"
    using out_m nn by simp
  moreover have "out a \<le> 1" if "a \<in> ?P - {m}" for a
    using that outdeg [of a] by (simp add: out_def)
  ultimately have out1: "\<forall>p\<in>?P - {m}. out p = 1"
    using sum_card_all_one [of "?P - {m}" out] by blast
  have succ_ex: "\<exists>v\<in>?P - {p}. f p v" if p: "p \<in> ?P" "p \<noteq> m" for p
  proof (rule ccontr)
    assume "\<not> (\<exists>v\<in>?P - {p}. f p v)"
    then have "out p = 0" by (simp add: out_def)
    with out1 p show False by simp
  qed
  have key: "f (ys ! j) (ys ! (j + 1))" if "j + 1 < ?n" for j
    using that
  proof (induction "?n - j" arbitrary: j rule: less_induct)
    case less
    let ?p = "ys ! j"
    from less.prems have pP: "?p \<in> ?P" by simp
    have "?p \<noteq> m"
      using less.prems dist by (simp add: m_def nth_eq_iff_index_eq)
    with pP succ_ex obtain v where v: "v \<in> ?P" "v \<noteq> ?p" "f ?p v" by blast
    then obtain k where k: "k < ?n" "ys ! k = v" by (auto simp: in_set_conv_nth)
    from v pP have lt: "st ?p < st v" using inc [of ?p v] by simp
    have jk: "j < k"
    proof (rule ccontr)
      assume "\<not> j < k"
      then have "k \<le> j" by simp
      with less.prems have "st (ys ! k) \<le> st ?p" using mono [of k j] by simp
      with lt k show False by simp
    qed
    show ?case
    proof (cases "k = j + 1")
      case True
      with v k show ?thesis by simp
    next
      case False
      with jk have k2: "j + 1 < k" by simp
      let ?q = "ys ! (k - 1)"
      have "f ?q (ys ! (k - 1 + 1))"
      proof (rule less.hyps)
        show "?n - (k - 1) < ?n - j" using k2 k(1) by linarith
        show "k - 1 + 1 < ?n" using k2 k(1) by linarith
      qed
      with k2 k have fq: "f ?q v" by simp
      have qP: "?q \<in> ?P" using k by simp
      have qp: "?q \<noteq> ?p"
        using k k2 less.prems dist by (simp add: nth_eq_iff_index_eq)
      have qv: "?q \<noteq> v"
        using k k2 dist nth_eq_iff_index_eq [of ys "k - 1" k] by simp
      let ?g = "\<lambda>u. if f u v then 1 else (0::int)"
      have "sum ?g {?p, ?q} \<le> sum ?g (?P - {v})"
      proof (rule sum_mono2)
        show "finite (?P - {v})" by simp
        show "{?p, ?q} \<subseteq> ?P - {v}" using pP qP qv v(2) by blast
        show "\<And>b. b \<in> ?P - {v} - {?p, ?q} \<Longrightarrow> 0 \<le> (if f b v then 1 else (0::int))" by simp
      qed
      moreover have "sum ?g {?p, ?q} = 2"
        using qp fq v(3) by simp
      ultimately show ?thesis using indeg [OF v(1)] by simp
    qed
  qed
  from key i show ?thesis .
qed


lemma insort_key_map: "insort_key f (g x) (map g xs) = map g (insort_key (\<lambda>y. f (g y)) x xs)"
  by (induction xs) simp_all

lemma sort_key_map: "sort_key f (map g xs) = map g (sort_key (\<lambda>y. f (g y)) xs)"
  by (induction xs) (simp_all add: insort_key_map)

lemma bool_sum_concat:
  "eval a (BoolSum (concat (map h xs))) = (\<Sum>x\<leftarrow>xs. eval a (BoolSum (h x)))"
  by (induction xs) simp_all

lemma bool_sum_others:
  assumes "distinct xs"
  shows "eval a (BoolSum [g x. x \<leftarrow> xs, x \<noteq> p])
           = (\<Sum>x\<in>set xs - {p}. if bval a (g x) then 1 else 0)"
proof -
  let ?h = "\<lambda>x. if x \<noteq> p then (if bval a (g x) then 1 else 0) else (0::int)"
  have "eval a (BoolSum [g x. x \<leftarrow> xs, x \<noteq> p]) = (\<Sum>x\<leftarrow>xs. ?h x)"
    by (induction xs) simp_all
  also have "\<dots> = (\<Sum>x\<in>set xs. ?h x)"
    using assms by (rule sum_list_distinct_conv_sum_set)
  also have "\<dots> = (\<Sum>x\<in>set xs - {p}. if bval a (g x) then 1 else 0)"
    by (rule sum.mono_neutral_cong_right) auto
  finally show ?thesis .
qed

lemma bool_sum_others':
  assumes "distinct xs"
  shows "eval a (BoolSum [g x. x \<leftarrow> xs, p \<noteq> x])
           = (\<Sum>x\<in>set xs - {p}. if bval a (g x) then 1 else 0)"
proof -
  have "[g x. x \<leftarrow> xs, p \<noteq> x] = [g x. x \<leftarrow> xs, x \<noteq> p]"
    by (induction xs) auto
  then show ?thesis using bool_sum_others [OF assms] by simp
qed


lemma gap_in_model:
  assumes "c \<in> set (candidates s)" and "k \<in> set (gap_constraints s c)"
  shows "k \<in> set (fst (build_model s))"
proof -
  from assms have "k \<in> set (add_gap_constraints s)"
    by (auto simp: add_gap_constraints_def)
  then show ?thesis unfolding build_model_parts by blast
qed

lemma follows_bounds:
  assumes feas: "feasible s a" and c: "c \<in> set (candidates s)"
    and p: "p1 \<in> set (panel_names s)" "p2 \<in> set (panel_names s)" "p1 \<noteq> p2"
    and f: "bval a (Follows c p1 p2)"
  shows "ival a (StartVar c p1) + duration s p1 \<le> ival a (StartVar c p2)"
    and "ival a (StartVar c p2) \<le> ival a (StartVar c p1) + duration s p1 + max_gap_slots s"
proof -
  let ?e = "Plus (start_var c p1) (Const (duration s p1))"
  have "Linear (GE (start_var c p2) ?e) [Is (Follows c p1 p2)] \<in> set (gap_constraints s c)"
    using p by (auto simp: gap_constraints_def follows_constraints_def Let_def)
  then have "holds a (Linear (GE (start_var c p2) ?e) [Is (Follows c p1 p2)])"
    by (intro feasibleD [OF feas] gap_in_model [OF c])
  with f show "ival a (StartVar c p1) + duration s p1 \<le> ival a (StartVar c p2)"
    by (simp add: start_var_def)
  let ?g = "Plus ?e (Const (max_gap_slots s))"
  have "Linear (LE (start_var c p2) ?g) [Is (Follows c p1 p2)] \<in> set (gap_constraints s c)"
    using p by (auto simp: gap_constraints_def follows_constraints_def Let_def)
  then have "holds a (Linear (LE (start_var c p2) ?g) [Is (Follows c p1 p2)])"
    by (intro feasibleD [OF feas] gap_in_model [OF c])
  with f show "ival a (StartVar c p2) \<le> ival a (StartVar c p1) + duration s p1 + max_gap_slots s"
    by (simp add: start_var_def)
qed

lemma follows_degrees:
  assumes feas: "feasible s a" and c: "c \<in> set (candidates s)"
    and dist: "distinct (panel_names s)"
  shows "p \<in> set (panel_names s) \<Longrightarrow>
           (\<Sum>u\<in>set (panel_names s) - {p}. if bval a (Follows c u p) then 1 else 0) \<le> (1::int)"
    and "p \<in> set (panel_names s) \<Longrightarrow>
           (\<Sum>v\<in>set (panel_names s) - {p}. if bval a (Follows c p v) then 1 else 0) \<le> (1::int)"
    and "(\<Sum>p\<in>set (panel_names s). \<Sum>v\<in>set (panel_names s) - {p}.
             if bval a (Follows c p v) then 1 else 0) = int (length (panel_names s)) - 1"
proof -
  let ?ns = "panel_names s"
  {
    assume p: "p \<in> set ?ns"
    let ?in = "BoolSum [Follows c p1 p. p1 \<leftarrow> ?ns, p1 \<noteq> p]"
    let ?out = "BoolSum [Follows c p p2. p2 \<leftarrow> ?ns, p2 \<noteq> p]"
    have "Linear (LE ?in (Const 1)) [] \<in> set (gap_constraints s c)"
      using p by (auto simp: gap_constraints_def Let_def)
    then have "holds a (Linear (LE ?in (Const 1)) [])"
      by (intro feasibleD [OF feas] gap_in_model [OF c])
    then have "eval a ?in \<le> 1" by simp
    then show "(\<Sum>u\<in>set ?ns - {p}. if bval a (Follows c u p) then 1 else 0) \<le> (1::int)"
      by (simp only: bool_sum_others [OF dist])
    have "Linear (LE ?out (Const 1)) [] \<in> set (gap_constraints s c)"
      using p by (auto simp: gap_constraints_def Let_def)
    then have "holds a (Linear (LE ?out (Const 1)) [])"
      by (intro feasibleD [OF feas] gap_in_model [OF c])
    then have "eval a ?out \<le> 1" by simp
    then show "(\<Sum>v\<in>set ?ns - {p}. if bval a (Follows c p v) then 1 else 0) \<le> (1::int)"
      by (simp only: bool_sum_others [OF dist])
  }
  let ?all = "BoolSum [Follows c p1 p2. p1 \<leftarrow> ?ns, p2 \<leftarrow> ?ns, p1 \<noteq> p2]"
  have "Linear (EQ ?all (Const (int (length ?ns) - 1))) [] \<in> set (gap_constraints s c)"
    by (simp add: gap_constraints_def Let_def)
  then have "holds a (Linear (EQ ?all (Const (int (length ?ns) - 1))) [])"
    by (intro feasibleD [OF feas] gap_in_model [OF c])
  then have "eval a ?all = int (length ?ns) - 1" by simp
  moreover have "eval a ?all = (\<Sum>p\<leftarrow>?ns. eval a (BoolSum [Follows c p p2. p2 \<leftarrow> ?ns, p \<noteq> p2]))"
    by (rule bool_sum_concat)
  moreover have "\<dots> = (\<Sum>p\<leftarrow>?ns. \<Sum>v\<in>set ?ns - {p}. if bval a (Follows c p v) then 1 else 0)"
    by (simp only: bool_sum_others' [OF dist])
  moreover have "\<dots> = (\<Sum>p\<in>set ?ns. \<Sum>v\<in>set ?ns - {p}. if bval a (Follows c p v) then 1 else 0)"
    using dist by (rule sum_list_distinct_conv_sum_set)
  ultimately show "(\<Sum>p\<in>set ?ns. \<Sum>v\<in>set ?ns - {p}.
             if bval a (Follows c p v) then 1 else 0) = int (length ?ns) - 1"
    by simp
qed


lemma sorted_follows:
  assumes feas: "feasible s a" and c: "c \<in> set (candidates s)"
    and dist: "distinct (panel_names s)"
    and dur: "\<And>p. p \<in> set (panel_names s) \<Longrightarrow> 1 \<le> duration s p"
    and i: "i + 1 < length (panel_names s)"
  shows "bval a (Follows c (sort_key (\<lambda>p. ival a (StartVar c p)) (panel_names s) ! i)
                           (sort_key (\<lambda>p. ival a (StartVar c p)) (panel_names s) ! (i + 1)))"
proof -
  let ?sv = "\<lambda>p. ival a (StartVar c p)"
  let ?ys = "sort_key ?sv (panel_names s)"
  have set_ys: "set ?ys = set (panel_names s)" and len: "length ?ys = length (panel_names s)"
    by simp_all
  note deg = follows_degrees [OF feas c dist]
  show ?thesis
  proof (rule follows_chain [where st = ?sv])
    show "distinct ?ys" using dist by simp
    show "sorted (map ?sv ?ys)" by (rule sorted_sort_key)
    show "?sv u < ?sv v"
      if "u \<in> set ?ys" "v \<in> set ?ys" "u \<noteq> v" "bval a (Follows c u v)" for u v
      using follows_bounds(1) [OF feas c, of u v] dur [of u] that by simp
    show "(\<Sum>v\<in>set ?ys - {p}. if bval a (Follows c p v) then 1 else 0) \<le> (1::int)"
      if "p \<in> set ?ys" for p
      using deg(2) [of p] that by simp
    show "(\<Sum>u\<in>set ?ys - {p}. if bval a (Follows c u p) then 1 else 0) \<le> (1::int)"
      if "p \<in> set ?ys" for p
      using deg(1) [of p] that by simp
    show "(\<Sum>p\<in>set ?ys. \<Sum>v\<in>set ?ys - {p}. if bval a (Follows c p v) then 1 else 0)
            = int (length ?ys) - 1"
      using deg(3) by simp
    show "i + 1 < length ?ys" using i by simp
  qed
qed

lemma add_gaps_length: "length (add_gaps s prev xs) = length xs"
  by (induction xs arbitrary: prev) simp_all

lemma add_gaps_nth:
  "i < length xs \<Longrightarrow>
   add_gaps s prev xs ! i =
     (xs ! i) \<lparr> gap_before :=
       Some ((start_slot (xs ! i) - end_slot ((prev # xs) ! i)) * slot_duration_minutes s) \<rparr>"
proof (induction xs arbitrary: prev i)
  case Nil
  then show ?case by simp
next
  case (Cons x xs)
  then show ?case by (cases i) simp_all
qed


lemma add_gaps_slots:
  "map start_slot (add_gaps s prev xs) = map start_slot xs"
  "map end_slot (add_gaps s prev xs) = map end_slot xs"
  by (induction xs arbitrary: prev) simp_all

lemma duration_ge_1:
  assumes "\<forall>d\<in>snd ` set (panels s). 1 \<le> d" and "p \<in> set (panel_names s)"
  shows "1 \<le> duration s p"
proof -
  from assms(2) obtain d where "map_of (panels s) p = Some d"
    by (auto simp: panel_names_def dest: weak_map_of_SomeI)
  moreover from this have "(p, d) \<in> set (panels s)" by (rule map_of_SomeD)
  ultimately show ?thesis using assms(1) by (force simp: duration_def)
qed

text \<open>
  C1, as the code has it. Take a scheduler that the constructor returned, with distinct
  panel names and every duration at least one slot, and a successful solve whose values
  satisfy the model. Then for every candidate \<^verbatim>\<open>get_candidate_schedule\<close> returns the
  sessions sorted by start slot, and every consecutive gap \<open>start\<^sub>i\<^sub>+\<^sub>1 - (start\<^sub>i + d\<^sub>i)\<close>
  is at least 0 and at most \<open>max_gap_minutes div slot_duration_minutes\<close> slots; the
  \<^verbatim>\<open>gap_before\<close> of the later session is that gap in minutes. The constructor does not
  check the durations, and the hypothesis on them is needed: two sessions of zero
  slots at the same start can follow each other, which uses up the follows variables
  that the chain needs (see the example after the theorem).
\<close>

theorem consecutive_gaps_bounded:
  assumes init: "init n ps ord av spd gap h0 m0 w pos conf = Inr s"
    and keys: "distinct (map fst ps)" and dur: "\<forall>d\<in>snd ` set ps. 1 \<le> d"
    and feas: "feasible s a" and solved: "solve s (st, a) = (s', True)"
    and cid: "0 \<le> cid" "cid < n" and i: "i + 1 < length ps"
  shows "\<exists>out. get_candidate_schedule s' cid = Inr out \<and> length out = length ps
          \<and> sorted (map start_slot out)
          \<and> 0 \<le> start_slot (out ! (i + 1)) - end_slot (out ! i)
          \<and> start_slot (out ! (i + 1)) - end_slot (out ! i) \<le> gap div w
          \<and> gap_before (out ! (i + 1))
              = Some ((start_slot (out ! (i + 1)) - end_slot (out ! i)) * w)"
proof -
  from init have s: "panels s = ps" "num_candidates s = n" "max_gap_slots s = gap div w"
    "slot_duration_minutes s = w"
    by (auto simp: init_ok)
  from solved have s': "solution_found s'" "solver s' = Some a" "panels s' = ps"
    "num_candidates s' = n" "slot_duration_minutes s' = w"
    by (auto simp: solve_def Let_def s)
  define c where "c = nat cid"
  let ?ns = "panel_names s"
  let ?sv = "\<lambda>p. ival a (StartVar c p)"
  let ?ys = "sort_key ?sv ?ns"
  let ?mk = "make_session s' a c"
  have c: "c \<in> set (candidates s)"
    using cid by (simp add: c_def candidates_iff s)
  have dist: "distinct ?ns" using keys by (simp add: panel_names_def s)
  have len: "length ?ns = length ps" by (simp add: panel_names_def s)
  have names': "panel_names s' = ?ns" by (simp add: panel_names_def s s')
  have dur': "duration s' p = duration s p" for p by (simp add: duration_def s s')
  have d1: "1 \<le> duration s p" if "p \<in> set ?ns" for p
    using dur that by (intro duration_ge_1) (simp_all add: s)
  have start_mk: "start_slot (?mk p) = ?sv p"
    and end_mk: "end_slot (?mk p) = ?sv p + duration s p" for p
    by (simp_all add: make_session_def Let_def dur')
  have ss: "sorted_sessions s' a c = map ?mk ?ys"
    by (simp add: sorted_sessions_def names' sort_key_map start_mk)
  have ys_len: "length ?ys = length ps" using len by simp
  have "?ys \<noteq> []"
  proof
    assume "?ys = []"
    then have "length ?ys = 0" by (simp only: list.size)
    with ys_len i show False by simp
  qed
  then obtain x xs where xxs: "map ?mk ?ys = x # xs"
    by (cases "map ?mk ?ys") simp_all
  define out where "out = x # add_gaps s' x xs"
  have get: "get_candidate_schedule s' cid = Inr out"
    using i cid by (auto simp: get_candidate_schedule_def s' ss xxs out_def c_def [symmetric])
  have out_len: "length out = length ps"
    using xxs ys_len by (metis add_gaps_length length_Cons length_map out_def)
  have "map start_slot out = map start_slot (x # xs)"
    by (simp add: out_def add_gaps_slots)
  also have "\<dots> = map start_slot (map ?mk ?ys)" by (simp only: xxs)
  also have "\<dots> = map ?sv ?ys" by (simp add: start_mk)
  finally have starts: "map start_slot out = map ?sv ?ys" .
  have "map end_slot out = map end_slot (x # xs)"
    by (simp add: out_def add_gaps_slots)
  also have "\<dots> = map end_slot (map ?mk ?ys)" by (simp only: xxs)
  also have "\<dots> = map (\<lambda>p. ?sv p + duration s p) ?ys" by (simp add: end_mk)
  finally have ends: "map end_slot out = map (\<lambda>p. ?sv p + duration s p) ?ys" .
  have st_nth: "start_slot (out ! j) = ?sv (?ys ! j)" if "j < length ps" for j
    using arg_cong [OF starts, of "\<lambda>l. l ! j"] that by (simp add: out_len len)
  have en_nth: "end_slot (out ! j) = ?sv (?ys ! j) + duration s (?ys ! j)" if "j < length ps" for j
    using arg_cong [OF ends, of "\<lambda>l. l ! j"] that by (simp add: out_len len)
  have srt: "sorted (map start_slot out)"
    unfolding starts by (rule sorted_sort_key)
  have fol: "bval a (Follows c (?ys ! i) (?ys ! (i + 1)))"
    using feas c dist d1 i by (intro sorted_follows) (simp_all add: len)
  have mem: "?ys ! i \<in> set ?ns" "?ys ! (i + 1) \<in> set ?ns"
    using i nth_mem [of i ?ys] nth_mem [of "i + 1" ?ys] by (simp_all add: len)
  have ne: "?ys ! i \<noteq> ?ys ! (i + 1)"
    using dist i by (simp add: nth_eq_iff_index_eq len)
  note b = follows_bounds [OF feas c mem ne fol]
  have lo: "0 \<le> start_slot (out ! (i + 1)) - end_slot (out ! i)"
    using b(1) i by (simp add: st_nth en_nth)
  have hi: "start_slot (out ! (i + 1)) - end_slot (out ! i) \<le> gap div w"
    using b(2) i by (simp add: st_nth en_nth s)
  have "i < length xs" using xxs ys_len i by (metis One_nat_def Suc_eq_plus1 Suc_less_eq length_Cons length_map)
  then have gapb: "gap_before (out ! (i + 1))
              = Some ((start_slot (out ! (i + 1)) - end_slot (out ! i)) * w)"
    by (cases i) (simp_all add: out_def add_gaps_nth s')
  from get out_len srt lo hi gapb show ?thesis by blast
qed


lemma init_lunch_day:
  "init 2 [(''A'', 1), (''Lunch'', 1)] [''A'', ''Lunch'']
     [(''A'', [(0, 34)]), (''Lunch'', [(0, 34)])] 34 15 8 30 15 [] [] = Inr lunch_day"
  by (simp add: init_ok lunch_day_def validate_parameters_def and_then_ok for_each_ok
      check_order_def check_has_availability_def has_key_def check_windows_def
      check_window_def)

lemma solve_lunch_day: "solve lunch_day (OPTIMAL, lunch_plan) = (solved_day, True)"
  by (simp add: solved_day_def solve_def Let_def)

theorem consecutive_gaps_bounded_witness:
  "init 2 [(''A'', 1), (''Lunch'', 1)] [''A'', ''Lunch'']
     [(''A'', [(0, 34)]), (''Lunch'', [(0, 34)])] 34 15 8 30 15 [] [] = Inr lunch_day \<and>
   feasible lunch_day lunch_plan \<and>
   solve lunch_day (OPTIMAL, lunch_plan) = (solved_day, True) \<and>
   (\<exists>out. get_candidate_schedule solved_day 1 = Inr out \<and> length out = 2
      \<and> sorted (map start_slot out)
      \<and> 0 \<le> start_slot (out ! 1) - end_slot (out ! 0)
      \<and> start_slot (out ! 1) - end_slot (out ! 0) \<le> 1
      \<and> gap_before (out ! 1) = Some ((start_slot (out ! 1) - end_slot (out ! 0)) * 15))"
  using consecutive_gaps_bounded [OF init_lunch_day _ _ feasible_lunch_plan solve_lunch_day,
      of 1 0]
    init_lunch_day feasible_lunch_plan solve_lunch_day
  by (simp add: eval_nat_numeral)

lemma init_gap_day:
  "init 1 [(''A'', 0), (''B'', 0), (''C'', 1)] []
     [(''A'', [(0, 1)]), (''B'', [(0, 1)]), (''C'', [(20, 34)])] 34 15 8 30 15 [] []
   = Inr gap_day"
  by (simp add: init_ok gap_day_def validate_parameters_def and_then_ok for_each_ok
      check_order_def check_has_availability_def has_key_def check_windows_def
      check_window_def)

lemma feasible_gap_plan: "feasible gap_day gap_plan"
  by (simp add: model_defs candidates_def gap_day_def gap_plan_def upt_rec
      enumerate_eq_zip)

lemma solve_gap_day: "solve gap_day (OPTIMAL, gap_plan) = (gap_solved_day, True)"
  by (simp add: gap_solved_day_def solve_def Let_def)

text \<open>
  In \<open>gap_day\<close> no answer of the solver keeps the bound: the windows put \<^verbatim>\<open>A\<close> and \<^verbatim>\<open>B\<close>
  at slot 0 or 1 and \<^verbatim>\<open>C\<close> at slot 20 or later, so in every schedule read from values
  that satisfy the model the last gap is at least 19 slots.
\<close>

lemma gap_day_starts:
  assumes "feasible gap_day a"
  shows "ival a (StartVar 0 ''A'') \<le> 1" and "ival a (StartVar 0 ''B'') \<le> 1"
    and "20 \<le> ival a (StartVar 0 ''C'')"
  using assms
  by (simp_all add: model_defs candidates_def gap_day_def upt_rec enumerate_eq_zip
      split: if_splits)

lemma gap_day_every_plan:
  assumes feas: "feasible gap_day a" and solved: "solve gap_day (st, a) = (s', True)"
  shows "\<exists>out. get_candidate_schedule s' 0 = Inr out \<and> length out = 3
          \<and> 19 \<le> start_slot (out ! 2) - end_slot (out ! 1)"
proof -
  note b = gap_day_starts [OF feas]
  from solved have s': "s' = gap_day \<lparr> model := Some (build_model gap_day), solver := Some a,
      status := Some st, solution_found := True \<rparr>"
    by (auto simp: solve_def Let_def)
  show ?thesis
  proof (cases "ival a (StartVar 0 ''A'') \<le> ival a (StartVar 0 ''B'')")
    case True
    with b show ?thesis
      by (simp add: s' get_candidate_schedule_def gap_day_def sorted_sessions_def
          panel_names_def make_session_def duration_def Let_def)
  next
    case False
    with b show ?thesis
      by (simp add: s' get_candidate_schedule_def gap_day_def sorted_sessions_def
          panel_names_def make_session_def duration_def Let_def)
  qed
qed

text \<open>
  C1, as stated, fails. The constructor accepts \<open>gap_day\<close>, whose panel names are
  distinct; \<open>gap_plan\<close> satisfies its model; and after a solve that returned
  \<open>gap_plan\<close> the schedule of the candidate is \<open>gap_schedule\<close>, in which \<^verbatim>\<open>C\<close> starts 20
  slots after \<^verbatim>\<open>B\<close> has ended, while \<open>max_gap_minutes div slot_duration_minutes\<close> is 1.
\<close>

theorem zero_duration_gap_unbounded:
  "init 1 [(''A'', 0), (''B'', 0), (''C'', 1)] []
     [(''A'', [(0, 1)]), (''B'', [(0, 1)]), (''C'', [(20, 34)])] 34 15 8 30 15 [] []
   = Inr gap_day \<and>
   distinct (map fst (panels gap_day)) \<and>
   feasible gap_day gap_plan \<and>
   solve gap_day (OPTIMAL, gap_plan) = (gap_solved_day, True) \<and>
   get_candidate_schedule gap_solved_day 0 = Inr gap_schedule \<and>
   start_slot (gap_schedule ! 2) - end_slot (gap_schedule ! 1) = 20 \<and>
   max_gap_minutes gap_day div slot_duration_minutes gap_day = 1 \<and>
   \<not> start_slot (gap_schedule ! 2) - end_slot (gap_schedule ! 1)
       \<le> max_gap_minutes gap_day div slot_duration_minutes gap_day"
proof -
  have 1: "get_candidate_schedule gap_solved_day 0 = Inr gap_schedule"
    by code_simp
  have 2: "start_slot (gap_schedule ! 2) - end_slot (gap_schedule ! 1) = 20"
    by (simp add: gap_schedule_def)
  have 3: "max_gap_minutes gap_day div slot_duration_minutes gap_day = 1"
    by (simp add: gap_day_def)
  have 4: "distinct (map fst (panels gap_day))"
    by (simp add: gap_day_def)
  from init_gap_day feasible_gap_plan solve_gap_day 1 2 3 4 show ?thesis
    by simp
qed

subsection \<open>The state without a solution\<close>

text \<open>
  C10. A scheduler has no solution when \<^verbatim>\<open>solution_found\<close> is false; that is so right
  after construction, and after every solve whose status is neither \<^verbatim>\<open>OPTIMAL\<close> nor
  \<^verbatim>\<open>FEASIBLE\<close>, whatever an earlier solve had found. In that state
  \<^verbatim>\<open>get_candidate_schedule\<close> returns the empty list for every candidate id,
  \<^verbatim>\<open>get_solution_summary\<close> returns the record whose only field is the status
  \<^verbatim>\<open>No solution found\<close>, and \<^verbatim>\<open>export_to_csv\<close> raises \<^verbatim>\<open>ValueError\<close>.
\<close>

theorem no_solution_state:
  "(init n ps ord av spd gap h0 m0 w pos conf = Inr s \<longrightarrow> \<not> solution_found s) \<and>
   (st \<noteq> OPTIMAL \<and> st \<noteq> FEASIBLE \<longrightarrow>
      \<not> solution_found (fst (solve s (st, a))) \<and> \<not> snd (solve s (st, a))) \<and>
   (\<not> solution_found s \<longrightarrow>
      get_candidate_schedule s candidate_id = Inr [] \<and>
      get_solution_summary s = Inr [(''status'', Str ''No solution found'')] \<and>
      export_to_csv s filename date = Inl (ValueError NoSolutionFound))"
  by (auto simp: init_ok solve_def Let_def get_candidate_schedule_def
      get_solution_summary_def export_to_csv_def)

theorem no_solution_state_witness:
  "init 1 [(''A'', 1)] [] [(''A'', [(0, 4)])] 34 15 8 30 15 [] [] = Inr small_day \<and>
   \<not> solution_found small_day \<and>
   get_candidate_schedule small_day 0 = Inr [] \<and>
   get_solution_summary small_day = Inr [(''status'', Str ''No solution found'')] \<and>
   export_to_csv small_day None ''DATE'' = Inl (ValueError NoSolutionFound) \<and>
   INFEASIBLE \<noteq> OPTIMAL \<and> INFEASIBLE \<noteq> FEASIBLE \<and>
   \<not> solution_found (fst (solve lunch_day (INFEASIBLE, lunch_plan))) \<and>
   get_candidate_schedule (fst (solve lunch_day (INFEASIBLE, lunch_plan))) 1 = Inr []"
  using no_solution_state [where s = small_day and n = 1 and ps = "[(''A'', 1)]" and ord = "[]"
      and av = "[(''A'', [(0, 4)])]" and spd = 34 and gap = 15 and ?h0.0 = 8 and ?m0.0 = 30
      and w = 15 and pos = "[]" and conf = "[]" and candidate_id = 0 and filename = None
      and date = "''DATE''"]
    no_solution_state [where s = lunch_day and st = INFEASIBLE and a = lunch_plan]
    no_solution_state [where s = "fst (solve lunch_day (INFEASIBLE, lunch_plan))"
      and candidate_id = 1]
    init_small_day
  by simp

subsection \<open>Durations\<close>

lemma is_digitE:
  assumes "is_digit c"
  obtains "c = CHR ''0''" | "c = CHR ''1''" | "c = CHR ''2''" | "c = CHR ''3''" | "c = CHR ''4''"
    | "c = CHR ''5''" | "c = CHR ''6''" | "c = CHR ''7''" | "c = CHR ''8''" | "c = CHR ''9''"
  using assms unfolding is_digit_def by auto

lemma digit_not_space: "is_digit c \<Longrightarrow> \<not> isspace c"
  by (erule is_digitE) (simp_all add: isspace_def)

lemma digit_not_letter: "is_digit c \<Longrightarrow> c \<noteq> CHR ''m'' \<and> c \<noteq> CHR ''h'' \<and> c \<noteq> CHR ''_'' \<and> c \<noteq> CHR ''-'' \<and> c \<noteq> CHR ''+''"
  by (erule is_digitE) simp_all

lemma digit_lower: "is_digit c \<Longrightarrow> lower_char c = c"
  by (erule is_digitE) (simp_all add: lower_char_def)

lemma strip_id: "s \<noteq> [] \<Longrightarrow> \<not> isspace (hd s) \<Longrightarrow> \<not> isspace (last s) \<Longrightarrow> strip s = s"
proof -
  assume s: "s \<noteq> []" "\<not> isspace (hd s)" "\<not> isspace (last s)"
  then have 1: "dropWhile isspace s = s" by (cases s) simp_all
  from s have "dropWhile isspace (rev s) = rev s"
    by (cases "rev s") (simp_all add: hd_rev [symmetric])
  with 1 show ?thesis by (simp add: strip_def)
qed
lemma isdigit_facts:
  assumes "isdigit ds"
  shows "ds \<noteq> []" and "lower ds = ds" and "CHR ''m'' \<notin> set ds" and "CHR ''h'' \<notin> set ds"
    and "CHR ''_'' \<notin> set ds" and "is_digit (hd ds)" and "is_digit (last ds)"
proof -
  from assms have ne: "ds \<noteq> []" and all: "\<forall>c\<in>set ds. is_digit c"
    by (simp_all add: isdigit_def list_all_iff)
  show "ds \<noteq> []" by (rule ne)
  show "lower ds = ds" unfolding lower_def using all by (intro map_idI) (simp add: digit_lower)
  show "CHR ''m'' \<notin> set ds" "CHR ''h'' \<notin> set ds" "CHR ''_'' \<notin> set ds"
    using all digit_not_letter by blast+
  show "is_digit (hd ds)" "is_digit (last ds)" using all ne by simp_all
qed

lemma contains_suffix: "sub \<noteq> [] \<Longrightarrow> contains sub (xs @ sub)"
proof (induction xs)
  case Nil
  then show ?case by (cases sub) simp_all
next
  case (Cons x xs)
  then show ?case by simp
qed

lemma contains_hd: "contains sub s \<Longrightarrow> sub \<noteq> [] \<Longrightarrow> hd sub \<in> set s"
proof (induction s)
  case Nil
  then show ?case by simp
next
  case (Cons c cs)
  show ?case
  proof (cases "take (length sub) (c # cs) = sub")
    case True
    with Cons.prems(2) have "hd sub = c" by (cases sub) auto
    then show ?thesis by simp
  next
    case False
    with Cons show ?thesis by simp
  qed
qed

lemma remove_all_skip:
  "hd sub \<notin> set xs \<Longrightarrow> remove_all sub (xs @ r) = xs @ remove_all sub r"
proof (induction xs)
  case Nil
  then show ?case by simp
next
  case (Cons x xs)
  have "take (length sub) (x # xs @ r) \<noteq> sub" if "sub \<noteq> []"
  proof
    assume "take (length sub) (x # xs @ r) = sub"
    with that have "hd sub = x" by (cases sub) auto
    with Cons.prems show False by simp
  qed
  with Cons show ?case by auto
qed

lemma remove_all_self: "sub \<noteq> [] \<Longrightarrow> remove_all sub sub = []"
  by (cases sub) simp_all

lemma split_skip: "sep \<notin> set xs \<Longrightarrow> split sep (xs @ sep # r) = xs # split sep r"
  by (induction xs) auto

lemma split_none: "sep \<notin> set xs \<Longrightarrow> split sep xs = [xs]"
  by (induction xs) auto

lemma strip_digits: "isdigit ds \<Longrightarrow> strip ds = ds"
  by (intro strip_id isdigit_facts digit_not_space) simp_all

lemma int_strip_digits: "isdigit ds \<Longrightarrow> int_strip ds = ds"
proof -
  assume ds: "isdigit ds"
  have ns: "\<not> int_space c" if "is_digit c" for c
    using digit_not_space [OF that] by (auto simp: int_space_def isspace_def)
  note d = isdigit_facts [OF ds]
  from d(1,6) have 1: "dropWhile int_space ds = ds" by (cases ds) (simp_all add: ns)
  from d(1,7) have "dropWhile int_space (rev ds) = rev ds"
    by (cases "rev ds") (simp_all add: hd_rev [symmetric] ns)
  with 1 show ?thesis by (simp add: int_strip_def)
qed

lemma py_int_digits:
  assumes "isdigit ds"
  shows "py_int ds = Inr (digits_value ds)"
proof -
  note d = isdigit_facts [OF assms]
  from d(1) obtain c cs where ds: "ds = c # cs" by (cases ds) auto
  with d(6) have c: "c \<noteq> CHR ''-''" "c \<noteq> CHR ''+''" using digit_not_letter [of c] by simp_all
  have "\<not> contains ''__'' ds"
    using contains_hd [of "''__''" ds] d(5) by auto
  moreover have "list_all (\<lambda>c. is_digit c \<or> c = CHR ''_'') ds"
    using assms by (simp add: isdigit_def list_all_iff)
  moreover have "hd ds \<noteq> CHR ''_''" "last ds \<noteq> CHR ''_''"
    using d(6,7) digit_not_letter by blast+
  ultimately have "valid_digits ds" using d(1) by (simp add: valid_digits_def)
  moreover have "filter (\<lambda>c. c \<noteq> CHR ''_'') ds = ds"
    using d(5) by (auto simp: filter_id_conv)
  ultimately have "unsigned ds ds = Inr (digits_value ds)" by (simp add: unsigned_def)
  then have u: "unsigned ds (c # cs) = Inr (digits_value ds)" by (simp only: ds [symmetric])
  have st: "int_strip ds = c # cs" using int_strip_digits [OF assms] by (simp only: ds [symmetric])
  show ?thesis unfolding py_int_def st using c u by simp
qed

lemma strip_digits_then:
  assumes "isdigit ds" and "r \<noteq> []" and "\<not> isspace (last r)"
  shows "strip (ds @ r) = ds @ r"
proof (rule strip_id)
  note d = isdigit_facts [OF assms(1)]
  show "ds @ r \<noteq> []" using d(1) by simp
  show "\<not> isspace (hd (ds @ r))" using d(1,6) digit_not_space by simp
  show "\<not> isspace (last (ds @ r))" using assms(2,3) by simp
qed

lemma lower_digits_then: "isdigit ds \<Longrightarrow> lower (ds @ r) = ds @ lower r"
  using isdigit_facts(2) [of ds] by (simp add: lower_def)

lemma not_isdigit_then: "\<not> is_digit (last r) \<Longrightarrow> r \<noteq> [] \<Longrightarrow> \<not> isdigit (ds @ r)"
  by (auto simp: isdigit_def list_all_iff)

lemma format_N: "isdigit N \<Longrightarrow> parse_duration N = Inr (digits_value N)"
  by (simp add: parse_duration_def isdigit_facts(2) strip_digits py_int_digits)

lemma format_Nmin:
  assumes "isdigit N"
  shows "parse_duration (N @ ''min'') = Inr (digits_value N)"
proof -
  note d = isdigit_facts [OF assms]
  have "lower ''min'' = ''min''" by (simp add: lower_def lower_char_def)
  then have l: "lower (N @ ''min'') = N @ ''min''"
    by (simp only: lower_digits_then [OF assms])
  have s: "strip (lower (N @ ''min'')) = N @ ''min''"
    unfolding l by (rule strip_digits_then [OF assms]) (simp_all add: isspace_def)
  have 1: "\<not> isdigit (N @ ''min'')"
    by (rule not_isdigit_then) (simp_all add: is_digit_def)
  have 2: "CHR ''h'' \<notin> set (N @ ''min'')" using d(4) by simp
  have 3: "contains ''min'' (N @ ''min'')" by (rule contains_suffix) simp
  have 4: "remove_all ''min'' (N @ ''min'') = N"
    using remove_all_skip [of "''min''" N "''min''"] d(3) by (simp add: remove_all_self)
  show ?thesis
    unfolding parse_duration_def s Let_def using 1 2 3 by (simp only: 4 py_int_digits [OF assms] if_False if_True)
qed

lemma format_Nh:
  assumes "isdigit N"
  shows "parse_duration (N @ ''h'') = Inr (digits_value N * 60)"
proof -
  note d = isdigit_facts [OF assms]
  have "lower ''h'' = ''h''" by (simp add: lower_def lower_char_def)
  then have l: "lower (N @ ''h'') = N @ ''h''"
    by (simp only: lower_digits_then [OF assms])
  have s: "strip (lower (N @ ''h'')) = N @ ''h''"
    unfolding l by (rule strip_digits_then [OF assms]) (simp_all add: isspace_def)
  have 1: "\<not> isdigit (N @ ''h'')"
    by (rule not_isdigit_then) (simp_all add: is_digit_def)
  have 2: "CHR ''h'' \<in> set (N @ ''h'')" by simp
  have 3: "\<not> contains ''min'' (N @ ''h'')"
    using contains_hd [of "''min''" "N @ ''h''"] d(3) by auto
  have 4: "remove_all ''h'' (N @ ''h'') = N"
    using remove_all_skip [of "''h''" N "''h''"] d(4) by (simp add: remove_all_self)
  show ?thesis
    unfolding parse_duration_def s Let_def using 1 2 3
    by (simp only: 4 py_int_digits [OF assms] if_False if_True sum.case add_0_right)
qed

lemma format_NhMmin:
  assumes "isdigit N" and "isdigit M"
  shows "parse_duration (N @ ''h'' @ M @ ''min'') = Inr (digits_value N * 60 + digits_value M)"
proof -
  note n = isdigit_facts [OF assms(1)] and m = isdigit_facts [OF assms(2)]
  let ?t = "N @ ''h'' @ M @ ''min''"
  have "lower (''h'' @ M @ ''min'') = ''h'' @ M @ ''min''"
    using lower_digits_then [OF assms(2), of "''min''"]
    by (simp add: lower_def lower_char_def)
  then have s: "strip (lower ?t) = ?t"
    using strip_digits_then [OF assms(1), of "''h'' @ M @ ''min''"]
    by (simp add: lower_digits_then [OF assms(1)] isspace_def)
  have 1: "\<not> isdigit ?t"
    using not_isdigit_then [of "''h'' @ M @ ''min''" N] by (simp add: is_digit_def)
  have 2: "CHR ''h'' \<in> set ?t" by simp
  have 3: "contains ''min'' ?t"
    using contains_suffix [of "''min''" "N @ ''h'' @ M"] by simp
  have "split CHR ''h'' ?t = N # split CHR ''h'' (M @ ''min'')"
    using split_skip [OF n(4), of "M @ ''min''"] by simp
  moreover have "split CHR ''h'' (M @ ''min'') = [M @ ''min'']"
    by (rule split_none) (use m(4) in simp)
  ultimately have 4: "split CHR ''h'' ?t = [N, M @ ''min'']" by simp
  have 5: "remove_all ''min'' (M @ ''min'') = M"
    using remove_all_skip [of "''min''" M "''min''"] m(3) by (simp add: remove_all_self)
  have 6: "strip M = M" by (rule strip_digits [OF assms(2)])
  have p: "[N, M @ ''min''] ! 0 = N" "[N, M @ ''min''] ! 1 = M @ ''min''" by simp_all
  show ?thesis
    unfolding parse_duration_def s Let_def 4 p 5 6
      py_int_digits [OF assms(1)] py_int_digits [OF assms(2)]
    using 1 2 3 m(1) by simp
qed

lemma parse_duration_lower: "lower t = lower u \<Longrightarrow> parse_duration t = parse_duration u"
  by (simp add: parse_duration_def)

lemma parse_duration_rejects:
  "\<not> isdigit (strip (lower t)) \<Longrightarrow> CHR ''h'' \<notin> set (strip (lower t)) \<Longrightarrow>
   \<not> contains ''min'' (strip (lower t)) \<Longrightarrow>
   parse_duration t = Inl (ValueError (InvalidDurationFormat (strip (lower t))))"
  by (simp add: parse_duration_def)

text \<open>
  C9, as the code has it. \<^verbatim>\<open>parse_duration\<close> accepts \<open>N\<close>, \<open>Nmin\<close>, \<open>Nh\<close> and \<open>NhMmin\<close> (\<open>N\<close>,
  \<open>M\<close> non-empty runs of digits) and returns \<open>N\<close>, \<open>N\<close>, \<open>60 N\<close> and \<open>60 N + M\<close> minutes; the
  letter case does not matter; the four examples have the values 90, 45, 120 and 30;
  and a text that, lowered and stripped, is not a run of digits and contains neither
  \<^verbatim>\<open>h\<close> nor \<^verbatim>\<open>min\<close> fails with \<^verbatim>\<open>ValueError\<close>.
\<close>

theorem parse_duration_formats:
  "(isdigit N \<and> isdigit M \<longrightarrow>
      parse_duration N = Inr (digits_value N) \<and>
      parse_duration (N @ ''min'') = Inr (digits_value N) \<and>
      parse_duration (N @ ''h'') = Inr (digits_value N * 60) \<and>
      parse_duration (N @ ''h'' @ M @ ''min'') = Inr (digits_value N * 60 + digits_value M)) \<and>
   (lower t = lower u \<longrightarrow> parse_duration t = parse_duration u) \<and>
   parse_duration ''1h30min'' = Inr 90 \<and> parse_duration ''45min'' = Inr 45 \<and>
   parse_duration ''2h'' = Inr 120 \<and> parse_duration ''30'' = Inr 30 \<and>
   (\<not> isdigit (strip (lower v)) \<and> CHR ''h'' \<notin> set (strip (lower v)) \<and>
    \<not> contains ''min'' (strip (lower v)) \<longrightarrow>
      parse_duration v = Inl (ValueError (InvalidDurationFormat (strip (lower v)))))"
proof (intro conjI impI)
  assume d: "isdigit N \<and> isdigit M"
  then show "parse_duration N = Inr (digits_value N)" by (simp add: format_N)
  from d show "parse_duration (N @ ''min'') = Inr (digits_value N)" by (simp add: format_Nmin)
  from d show "parse_duration (N @ ''h'') = Inr (digits_value N * 60)" by (simp add: format_Nh)
  from d show "parse_duration (N @ ''h'' @ M @ ''min'') = Inr (digits_value N * 60 + digits_value M)"
    by (intro format_NhMmin) simp_all
next
  assume "lower t = lower u"
  then show "parse_duration t = parse_duration u" by (rule parse_duration_lower)
next
  show "parse_duration ''1h30min'' = Inr 90" by code_simp
  show "parse_duration ''45min'' = Inr 45" by code_simp
  show "parse_duration ''2h'' = Inr 120" by code_simp
  show "parse_duration ''30'' = Inr 30" by code_simp
next
  assume "\<not> isdigit (strip (lower v)) \<and> CHR ''h'' \<notin> set (strip (lower v)) \<and>
    \<not> contains ''min'' (strip (lower v))"
  then show "parse_duration v = Inl (ValueError (InvalidDurationFormat (strip (lower v))))"
    by (intro parse_duration_rejects) simp_all
qed

theorem parse_duration_formats_witness:
  "isdigit ''2'' \<and> isdigit ''15'' \<and>
   parse_duration ''2'' = Inr 2 \<and> parse_duration ''2min'' = Inr 2 \<and>
   parse_duration ''2h'' = Inr 120 \<and> parse_duration ''2h15min'' = Inr 135 \<and>
   lower ''45MIN'' = lower ''45min'' \<and> parse_duration ''45MIN'' = parse_duration ''45min'' \<and>
   \<not> isdigit (strip (lower ''soon'')) \<and> CHR ''h'' \<notin> set (strip (lower ''soon'')) \<and>
   \<not> contains ''min'' (strip (lower ''soon'')) \<and>
   parse_duration ''soon'' = Inl (ValueError (InvalidDurationFormat ''soon''))"
proof -
  have d: "isdigit ''2''" "isdigit ''15''" by (simp_all add: isdigit_def is_digit_def)
  have v: "digits_value ''2'' = 2" "digits_value ''15'' = 15"
    by (simp_all add: digits_value_def digit_value_def)
  have l: "lower ''45MIN'' = lower ''45min''" by (simp add: lower_def lower_char_def)
  have s: "strip (lower ''soon'') = ''soon''"
    by (simp add: strip_def lower_def lower_char_def isspace_def)
  have r: "\<not> isdigit ''soon''" "CHR ''h'' \<notin> set ''soon''" "\<not> contains ''min'' ''soon''"
    by (simp_all add: isdigit_def is_digit_def)
  from parse_duration_formats [of "''2''" "''15''" "''45MIN''" "''45min''" "''soon''"] d v l s r
  show ?thesis by simp
qed

text \<open>
  C9 as stated fails: \<^verbatim>\<open>1h30\<close> is in none of the four formats, and \<^verbatim>\<open>parse_duration\<close>
  returns 7800 for it (the hours are read from \<^verbatim>\<open>130\<close>, the text without its \<^verbatim>\<open>h\<close>).
\<close>

theorem parse_duration_accepts_other_text:
  "\<not> spec_duration_format ''1h30'' \<and> parse_duration ''1h30'' = Inr 7800"
proof (rule conjI)
  show "\<not> spec_duration_format ''1h30''"
    by (simp add: spec_duration_format_def lower_def lower_char_def is_digit_def)
  show "parse_duration ''1h30'' = Inr 7800"
    by code_simp
qed

subsection \<open>Validation of the durations\<close>

lemma parse_panels_accepts:
  assumes "w \<noteq> 0"
    and "\<forall>(name, d)\<in>set ps. \<exists>m. parse_duration d = Inr m \<and> m mod w = 0"
  shows "parse_panels w ps = Inr (map (\<lambda>(name, d). (name, projr (parse_duration d) div w)) ps)"
  using assms by (induction ps) auto

lemma parse_panels_rejects:
  assumes "w \<noteq> 0"
    and "\<forall>(name, d)\<in>set ps. \<exists>m. parse_duration d = Inr m"
    and "\<exists>(name, d)\<in>set ps. projr (parse_duration d) mod w \<noteq> 0"
  shows "\<exists>name m. m mod w \<noteq> 0 \<and>
           parse_panels w ps = Inl (ValueError (DurationNotDivisible name m w))"
  using assms
proof (induction ps)
  case Nil
  then show ?case by simp
next
  case (Cons a ps)
  obtain name d where a: "a = (name, d)" by (cases a)
  with Cons.prems(2) obtain m where m: "parse_duration d = Inr m" by auto
  show ?case
  proof (cases "m mod w = 0")
    case False
    with a m Cons.prems(1) show ?thesis by auto
  next
    case True
    with Cons.prems a m have "\<exists>(name, d)\<in>set ps. projr (parse_duration d) mod w \<noteq> 0" by auto
    with Cons.IH Cons.prems obtain n' m' where
      "m' mod w \<noteq> 0" "parse_panels w ps = Inl (ValueError (DurationNotDivisible n' m' w))"
      by auto
    with a m True Cons.prems(1) show ?thesis by auto
  qed
qed

lemma create_fails_with_panels:
  "parse_panels (get (cfg_slot_duration_minutes cfg) 15) (cfg_panels cfg) = Inl e \<Longrightarrow>
   create_scheduler_from_config cfg = Inl e"
  by (simp add: create_scheduler_from_config_def)

lemma parse_zero: "parse_duration ''0'' = Inr 0"
  by code_simp

lemma parse_20min: "parse_duration ''20min'' = Inr 20"
  by code_simp

lemma parse_default_times:
  "parse_time_to_minutes ''08:30'' = Inr (8, 30)" "parse_time_to_minutes ''17:00'' = Inr (17, 0)"
  by code_simp+

lemma parse_zero_panels: "parse_panels 15 [(''A'', ''0'')] = Inr [(''A'', 0)]"
  by code_simp

lemma parse_odd_panels:
  "parse_panels 15 [(''A'', ''20min'')] = Inl (ValueError (DurationNotDivisible ''A'' 20 15))"
  by code_simp

lemma parse_morning:
  "parse_availabilities (temp_time_to_slot 8 30 15) [(''A'', [''08:30-10:00''])]
     = Inr [(''A'', [(0, 6)])]"
  by code_simp

lemma init_zero_day:
  "init 1 [(''A'', 0)] [] [(''A'', [(0, 6)])] 34 15 8 30 15 [] [] = Inr zero_day"
  by (simp add: init_ok zero_day_def small_day_def validate_parameters_def and_then_ok
      for_each_ok check_has_availability_def has_key_def check_windows_def check_window_def)

lemma create_zero_config: "create_scheduler_from_config zero_config = Inr zero_day"
  by (simp add: create_scheduler_from_config_def zero_config_def get_def Let_def
      parse_default_times parse_zero_panels parse_morning init_zero_day
      del: parse_panels.simps parse_availabilities.simps)

text \<open>
  C7, as the code has it. The durations are checked in \<^verbatim>\<open>create_scheduler_from_config\<close>,
  before the scheduler is constructed and so before any solving, and only for
  divisibility: when the slot width \<open>W\<close> is not zero and every duration text parses,
  a panel whose minutes are not a multiple of \<open>W\<close> makes the function fail with the
  \<^verbatim>\<open>ValueError\<close> for an indivisible duration, and when all are multiples the loop over the
  panels succeeds with \<open>minutes div W\<close> slots for each panel.
\<close>

theorem durations_checked_for_divisibility:
  assumes "w = get (cfg_slot_duration_minutes cfg) 15" and "w \<noteq> 0"
    and "\<forall>(name, d)\<in>set (cfg_panels cfg). \<exists>m. parse_duration d = Inr m"
  shows "((\<exists>(name, d)\<in>set (cfg_panels cfg). projr (parse_duration d) mod w \<noteq> 0) \<longrightarrow>
           (\<exists>name m. m mod w \<noteq> 0 \<and>
              create_scheduler_from_config cfg
                = Inl (ValueError (DurationNotDivisible name m w)))) \<and>
         ((\<forall>(name, d)\<in>set (cfg_panels cfg). projr (parse_duration d) mod w = 0) \<longrightarrow>
           parse_panels w (cfg_panels cfg)
             = Inr (map (\<lambda>(name, d). (name, projr (parse_duration d) div w)) (cfg_panels cfg)))"
proof (intro conjI impI)
  assume "\<exists>(name, d)\<in>set (cfg_panels cfg). projr (parse_duration d) mod w \<noteq> 0"
  with assms(2,3) obtain name m where nm: "m mod w \<noteq> 0"
    "parse_panels w (cfg_panels cfg) = Inl (ValueError (DurationNotDivisible name m w))"
    using parse_panels_rejects [of w "cfg_panels cfg"] by blast
  from nm(2) have "create_scheduler_from_config cfg
      = Inl (ValueError (DurationNotDivisible name m w))"
    unfolding assms(1) by (rule create_fails_with_panels)
  with nm(1) show "\<exists>name m. m mod w \<noteq> 0 \<and>
      create_scheduler_from_config cfg = Inl (ValueError (DurationNotDivisible name m w))"
    by blast
next
  assume "\<forall>(name, d)\<in>set (cfg_panels cfg). projr (parse_duration d) mod w = 0"
  with assms(3) have "\<forall>(name, d)\<in>set (cfg_panels cfg). \<exists>m. parse_duration d = Inr m \<and> m mod w = 0"
    by fastforce
  with assms(2) show "parse_panels w (cfg_panels cfg)
      = Inr (map (\<lambda>(name, d). (name, projr (parse_duration d) div w)) (cfg_panels cfg))"
    by (rule parse_panels_accepts)
qed


theorem durations_checked_for_divisibility_witness:
  "(15 :: int) = get (cfg_slot_duration_minutes odd_config) 15 \<and> (15 :: int) \<noteq> 0 \<and>
   parse_duration ''20min'' = Inr 20 \<and> (20 :: int) mod 15 \<noteq> 0 \<and>
   (\<exists>name m. m mod 15 \<noteq> 0 \<and>
      create_scheduler_from_config odd_config
        = Inl (ValueError (DurationNotDivisible name m 15))) \<and>
   parse_duration ''0'' = Inr 0 \<and> (0 :: int) mod 15 = 0 \<and>
   parse_panels 15 (cfg_panels zero_config) = Inr [(''A'', 0)]"
proof -
  have w: "(15 :: int) = get (cfg_slot_duration_minutes odd_config) 15"
    "(15 :: int) = get (cfg_slot_duration_minutes zero_config) 15"
    by (simp_all add: get_def odd_config_def zero_config_def)
  have p: "\<forall>(name, d)\<in>set (cfg_panels odd_config). \<exists>m. parse_duration d = Inr m"
    "\<forall>(name, d)\<in>set (cfg_panels zero_config). \<exists>m. parse_duration d = Inr m"
    by (simp_all add: odd_config_def zero_config_def parse_20min parse_zero)
  have odd: "\<exists>(name, d)\<in>set (cfg_panels odd_config). projr (parse_duration d) mod 15 \<noteq> 0"
    by (simp add: odd_config_def zero_config_def parse_20min)
  have even: "\<forall>(name, d)\<in>set (cfg_panels zero_config). projr (parse_duration d) mod 15 = 0"
    by (simp add: zero_config_def parse_zero)
  from durations_checked_for_divisibility [OF w(1) _ p(1)] odd
  have 1: "\<exists>name m. m mod 15 \<noteq> 0 \<and>
      create_scheduler_from_config odd_config
        = Inl (ValueError (DurationNotDivisible name m 15))"
    by simp
  from durations_checked_for_divisibility [OF w(2) _ p(2)] even
  have 2: "parse_panels 15 (cfg_panels zero_config) = Inr [(''A'', 0)]"
    by (simp add: zero_config_def parse_zero)
  from 1 2 w(1) show ?thesis by (simp add: parse_20min parse_zero)
qed

text \<open>
  C7 as stated fails: a duration of less than one slot is not rejected. The
  configuration whose panel has the duration \<^verbatim>\<open>0\<close> is accepted; the scheduler is
  constructed with a panel of 0 slots.
\<close>

theorem zero_duration_accepted:
  "parse_duration ''0'' = Inr 0 \<and>
   create_scheduler_from_config zero_config = Inr zero_day \<and>
   panels zero_day = [(''A'', 0)]"
  using parse_zero create_zero_config by (simp add: zero_day_def)

end
